theory Spec2Isabelle
  imports Complex_Main "HOL-Library.Word" "HOL-Library.Log_Nat"
begin

section \<open>The NavFn planner plugin: data model\<close>

text \<open>
  The development embeds \<^verbatim>\<open>nav2_navfn_planner/src/navfn_planner.cpp\<close>.

  Conventions of the embedding.
  \<^item> A finite C++ \<^verbatim>\<open>double\<close> is the \<^typ>\<open>real\<close> it denotes, and every arithmetic
    operation of the source is the IEEE-754 binary64 operation: the exact result rounded
    to the nearest double, ties to even, each operation rounded on its own (section
    ``Binary64 arithmetic''). An operation whose IEEE result is an infinity or a NaN
    yields \<open>None\<close>. Infinities and NaNs as inputs and the sign of zero are not modelled.
  \<^item> Where the C++ converts a \<^verbatim>\<open>double\<close> that the target integer type cannot hold (an
    infinity and a NaN included), or reads outside an array, its behaviour is undefined:
    the error \<open>Undefined\<close>. Where the C++ would carry an infinite coordinate on, the model
    stops with the error \<open>NonFinite\<close>.
  \<^item> \<^verbatim>\<open>unsigned int\<close> is \<^typ>\<open>32 word\<close>; a C++ \<^verbatim>\<open>int\<close> is an \<^typ>\<open>int\<close> with its range
    checked where a conversion can leave it.
  \<^item> A function that returns \<^verbatim>\<open>false\<close> after filling no output returns \<open>Inl OutOfBounds\<close>
    or the pair \<open>(False, [])\<close>, as the source has it.
  \<^item> Message headers (time stamp, frame id) and logging are not modelled.
\<close>

type_synonym uint = "32 word"

type_synonym cell = "uint \<times> uint"

record point =
  point_x :: real
  point_y :: real
  point_z :: real

record quaternion =
  quat_x :: real
  quat_y :: real
  quat_z :: real
  quat_w :: real

record pose =
  position :: point
  orientation :: quaternion

text \<open>The geometry of \<^verbatim>\<open>costmap_\<close>: \<^verbatim>\<open>getOriginX\<close>, \<^verbatim>\<open>getOriginY\<close>, \<^verbatim>\<open>getResolution\<close>,
  \<^verbatim>\<open>getSizeInCellsX\<close>, \<^verbatim>\<open>getSizeInCellsY\<close>. The cell costs are read only by the NavFn
  propagation, which is not part of this file.\<close>

record costmap =
  origin_x :: real
  origin_y :: real
  resolution :: real
  size_x :: uint
  size_y :: uint

text \<open>The fields of \<^verbatim>\<open>planner_\<close> (class NavFn) that this file reads: \<^verbatim>\<open>nx\<close>, \<^verbatim>\<open>ny\<close> and
  the potential array \<^verbatim>\<open>potarr\<close> (of \<^verbatim>\<open>float\<close>, each entry a double as well).\<close>

record navfn =
  nx :: int
  ny :: int
  potarr :: "real list"

datatype error = OutOfBounds | Undefined | NonFinite

text \<open>Modelled from the spec: the macro \<^verbatim>\<open>POT_HIGH\<close> of \<^verbatim>\<open>navfn.hpp\<close>, which is not among
  the sources; the specification gives the sentinel as the very large finite number
  \<open>1e10\<close>.\<close>

definition POT_HIGH :: real where
  "POT_HIGH = 10 ^ 10"

text \<open>\<^verbatim>\<open>std::numeric_limits<double>::max()\<close>: the largest finite IEEE-754 binary64 value,
  \<open>(2 - 2\<^sup>-\<^sup>5\<^sup>2) \<sqdot> 2\<^sup>1\<^sup>0\<^sup>2\<^sup>3\<close>.\<close>

definition DBL_MAX :: real where
  "DBL_MAX = (2 ^ 53 - 1) * 2 ^ 971"

section \<open>Binary64 arithmetic\<close>

text \<open>The binary exponent of a positive real: \<open>ilog2 x = e\<close> with \<open>2\<^sup>e \<le> x < 2\<^sup>e\<^sup>+\<^sup>1\<close>, computed
  from the bit length of \<open>\<lfloor>x\<rfloor>\<close> when \<open>1 \<le> x\<close> and of \<open>\<lceil>1 / x\<rceil> - 1\<close> otherwise.\<close>

definition ilog2 :: "real \<Rightarrow> int" where
  "ilog2 x = (if 1 \<le> x then int (floorlog 2 (nat \<lfloor>x\<rfloor>)) - 1
              else - int (floorlog 2 (nat (\<lceil>1 / x\<rceil> - 1))))"

text \<open>The nearest integer, a tie going to the even one.\<close>

definition round_even :: "real \<Rightarrow> int" where
  "round_even y =
     (let f = \<lfloor>y\<rfloor>; d = y - of_int f
      in if d < 1 / 2 then f else if 1 / 2 < d then f + 1 else if even f then f else f + 1)"

text \<open>The distance between neighbouring doubles around \<open>x\<close>: 52 fraction bits below the
  exponent of \<open>x\<close>, and \<open>2\<^sup>-\<^sup>1\<^sup>0\<^sup>7\<^sup>4\<close> throughout the subnormal range.\<close>

definition ulp :: "real \<Rightarrow> real" where
  "ulp x = 2 powi (max (ilog2 \<bar>x\<bar>) (- 1022) - 52)"

text \<open>Rounding to the nearest double, ties to even, before the overflow test.\<close>

definition rd :: "real \<Rightarrow> real" where
  "rd x = (if x = 0 then 0 else of_int (round_even (x / ulp x)) * ulp x)"

text \<open>The double that an exact result rounds to; \<open>None\<close> when it rounds beyond the largest
  finite double, which IEEE arithmetic turns into an infinity.\<close>

definition double_of :: "real \<Rightarrow> real option" where
  "double_of x = (let r = rd x in if \<bar>r\<bar> \<le> DBL_MAX then Some r else None)"

definition is_double :: "real \<Rightarrow> bool" where
  "is_double x \<longleftrightarrow> double_of x = Some x"

definition fadd :: "real \<Rightarrow> real \<Rightarrow> real option" where
  "fadd a b = double_of (a + b)"

definition fsub :: "real \<Rightarrow> real \<Rightarrow> real option" where
  "fsub a b = double_of (a - b)"

definition fmul :: "real \<Rightarrow> real \<Rightarrow> real option" where
  "fmul a b = double_of (a * b)"

text \<open>A division by zero gives an infinity or a NaN.\<close>

definition fdiv :: "real \<Rightarrow> real \<Rightarrow> real option" where
  "fdiv a b = (if b = 0 then None else double_of (a / b))"

text \<open>\<^verbatim>\<open>sqrt\<close> is correctly rounded; of a negative number it is a NaN.\<close>

definition fsqrt :: "real \<Rightarrow> real option" where
  "fsqrt a = (if a < 0 then None else double_of (sqrt a))"

text \<open>The conversion of a \<^verbatim>\<open>size_t\<close> to \<^verbatim>\<open>double\<close>: values beyond \<open>2\<^sup>5\<^sup>3\<close> are rounded.\<close>

definition double_of_size_t :: "nat \<Rightarrow> real" where
  "double_of_size_t k = rd (real k)"

text \<open>Modelled from the spec: \<^verbatim>\<open>squared_distance\<close>, declared in \<^verbatim>\<open>navfn_planner.hpp\<close>, which
  is not among the sources; the specification calls it the squared Euclidean distance of
  the two positions in the plane, here computed in doubles as \<open>dx * dx + dy * dy\<close>. On
  finite positions a result that is not finite is \<open>+\<infinity>\<close>, never a NaN: it is \<open>None\<close>.\<close>

definition squared_distance :: "pose \<Rightarrow> pose \<Rightarrow> real option" where
  "squared_distance p1 p2 =
     (case fsub (point_x (position p1)) (point_x (position p2)) of
        None \<Rightarrow> None
      | Some dx \<Rightarrow>
         (case fsub (point_y (position p1)) (point_y (position p2)) of
            None \<Rightarrow> None
          | Some dy \<Rightarrow>
             (case fmul dx dx of
                None \<Rightarrow> None
              | Some xx \<Rightarrow>
                 (case fmul dy dy of
                    None \<Rightarrow> None
                  | Some yy \<Rightarrow> fadd xx yy))))"

text \<open>The comparison \<open>a > b\<close> of two such values, \<open>None\<close> being \<open>+\<infinity>\<close>.\<close>

definition greater_inf :: "real option \<Rightarrow> real option \<Rightarrow> bool" where
  "greater_inf a b =
     (case b of None \<Rightarrow> False
      | Some y \<Rightarrow> (case a of None \<Rightarrow> True | Some x \<Rightarrow> y < x))"

section \<open>CoordinateMapper\<close>

text \<open>\<^verbatim>\<open>std::round\<close>: to the nearest integer, halfway cases away from zero.\<close>

definition std_round :: "real \<Rightarrow> int" where
  "std_round r = (if 0 \<le> r then \<lfloor>r + 1 / 2\<rfloor> else - \<lfloor>- r + 1 / 2\<rfloor>)"

text \<open>\<^verbatim>\<open>static_cast<int>\<close> of a \<^verbatim>\<open>double\<close> that holds the integer \<open>v\<close>: defined only when
  a 32-bit \<^verbatim>\<open>int\<close> can hold \<open>v\<close>.\<close>

definition static_cast_int :: "int \<Rightarrow> int option" where
  "static_cast_int v = (if - (2 ^ 31) \<le> v \<and> v < 2 ^ 31 then Some v else None)"

text \<open>The expression \<^verbatim>\<open>static_cast<int>(std::round((w - origin) / resolution))\<close>: a
  subtraction and a division in doubles, the rounding to an integer, and the cast.
  \<open>None\<close> is an undefined cast: of a quotient that is not finite, or of an integer beyond
  the range of \<^verbatim>\<open>int\<close>.\<close>

definition cell_of :: "real \<Rightarrow> real \<Rightarrow> real \<Rightarrow> int option" where
  "cell_of w origin res =
     (case fsub w origin of
        None \<Rightarrow> None
      | Some d \<Rightarrow>
         (case fdiv d res of
            None \<Rightarrow> None
          | Some q \<Rightarrow> static_cast_int (std_round q)))"

text \<open>
  \<^verbatim>\<open>
  bool NavfnPlanner::worldToMap(double wx, double wy, unsigned int & mx, unsigned int & my)
  {
    if (wx < costmap_->getOriginX() || wy < costmap_->getOriginY()) { return false; }
    mx = static_cast<int>(std::round((wx - costmap_->getOriginX()) / costmap_->getResolution()));
    my = static_cast<int>(std::round((wy - costmap_->getOriginY()) / costmap_->getResolution()));
    if (mx < costmap_->getSizeInCellsX() && my < costmap_->getSizeInCellsY()) { return true; }
    return false;
  }
  \<close>
  The \<^verbatim>\<open>int\<close> is converted to \<^verbatim>\<open>unsigned int\<close> modulo \<open>2\<^sup>3\<^sup>2\<close> (\<open>word_of_int\<close>), and the
  comparisons with the sizes are unsigned.
\<close>

definition worldToMap :: "costmap \<Rightarrow> real \<Rightarrow> real \<Rightarrow> error + cell" where
  "worldToMap c wx wy =
     (if wx < origin_x c \<or> wy < origin_y c then Inl OutOfBounds
      else
        (case cell_of wx (origin_x c) (resolution c) of
           None \<Rightarrow> Inl Undefined
         | Some ix \<Rightarrow>
            (case cell_of wy (origin_y c) (resolution c) of
               None \<Rightarrow> Inl Undefined
             | Some iy \<Rightarrow>
                (let mx = (word_of_int ix :: uint); my = (word_of_int iy :: uint)
                 in if mx < size_x c \<and> my < size_y c then Inr (mx, my)
                    else Inl OutOfBounds))))"

text \<open>
  \<^verbatim>\<open>
  void NavfnPlanner::mapToWorld(double mx, double my, double & wx, double & wy)
  {
    wx = costmap_->getOriginX() + mx * costmap_->getResolution();
    wy = costmap_->getOriginY() + my * costmap_->getResolution();
  }
  \<close>
  A product or a sum that is not finite is \<open>Inl NonFinite\<close>.
\<close>

definition mapToWorld :: "costmap \<Rightarrow> real \<Rightarrow> real \<Rightarrow> error + (real \<times> real)" where
  "mapToWorld c mx my =
     (case fmul mx (resolution c) of
        None \<Rightarrow> Inl NonFinite
      | Some ax \<Rightarrow>
         (case fadd (origin_x c) ax of
            None \<Rightarrow> Inl NonFinite
          | Some wx \<Rightarrow>
             (case fmul my (resolution c) of
                None \<Rightarrow> Inl NonFinite
              | Some ay \<Rightarrow>
                 (case fadd (origin_y c) ay of
                    None \<Rightarrow> Inl NonFinite
                  | Some wy \<Rightarrow> Inr (wx, wy)))))"

section \<open>PathSmoother\<close>

text \<open>
  \<^verbatim>\<open>
  auto second_to_last_pose = plan.poses.end()[-2];
  auto last_pose = plan.poses.back();
  if (squared_distance(last_pose.pose, second_to_last_pose.pose) >
      squared_distance(goal, second_to_last_pose.pose))
  {
    plan.poses.back().pose = goal;
  } else {
    geometry_msgs::msg::PoseStamped goal_copy;
    goal_copy.pose = goal;
    plan.poses.push_back(goal_copy);
  }
  \<close>
  On a plan of fewer than two poses \<^verbatim>\<open>plan.poses.end()[-2]\<close> reads before the vector:
  \<open>Inl Undefined\<close>.
\<close>

definition smoothApproachToGoal :: "pose \<Rightarrow> pose list \<Rightarrow> error + pose list" where
  "smoothApproachToGoal goal plan =
     (if length plan < 2 then Inl Undefined
      else
        (let second_to_last_pose = plan ! (length plan - 2);
             last_pose = last plan
         in if greater_inf (squared_distance last_pose second_to_last_pose)
                           (squared_distance goal second_to_last_pose)
            then Inr (plan[length plan - 1 := goal])
            else Inr (plan @ [goal])))"

section \<open>Point queries on the potential field\<close>

text \<open>
  \<^verbatim>\<open>
  double NavfnPlanner::getPointPotential(const geometry_msgs::msg::Point & world_point)
  {
    unsigned int mx, my;
    if (!worldToMap(world_point.x, world_point.y, mx, my)) {
      return std::numeric_limits<double>::max();
    }
    unsigned int index = my * planner_->nx + mx;
    return planner_->potarr[index];
  }
  \<close>
  The index is computed in \<^verbatim>\<open>unsigned int\<close> arithmetic (\<^verbatim>\<open>nx\<close> converted modulo \<open>2\<^sup>3\<^sup>2\<close>);
  a read beyond the array is \<open>Inl Undefined\<close>.
\<close>

definition getPointPotential :: "costmap \<Rightarrow> navfn \<Rightarrow> point \<Rightarrow> error + real" where
  "getPointPotential c n world_point =
     (case worldToMap c (point_x world_point) (point_y world_point) of
        Inl OutOfBounds \<Rightarrow> Inr DBL_MAX
      | Inl Undefined \<Rightarrow> Inl Undefined
      | Inl NonFinite \<Rightarrow> Inl NonFinite
      | Inr (mx, my) \<Rightarrow>
          (let index = my * (word_of_int (nx n) :: uint) + mx
           in if unat index < length (potarr n) then Inr (potarr n ! unat index)
              else Inl Undefined))"

text \<open>
  \<^verbatim>\<open>
  bool NavfnPlanner::validPointPotential(const geometry_msgs::msg::Point & world_point,
                                         double tolerance)
  {
    const double resolution = costmap_->getResolution();
    geometry_msgs::msg::Point p = world_point;
    p.y = world_point.y - tolerance;
    while (p.y <= world_point.y + tolerance) {
      p.x = world_point.x - tolerance;
      while (p.x <= world_point.x + tolerance) {
        double potential = getPointPotential(p);
        if (potential < POT_HIGH) { return true; }
        p.x += resolution;
      }
      p.y += resolution;
    }
    return false;
  }
  \<close>
  Both loops can run forever (a resolution that is not positive, or one so small next to
  the coordinate that adding it changes nothing), so each is a partial function: \<open>None\<close>
  is a loop that does not end, \<open>Some (Inr True)\<close> the early \<^verbatim>\<open>return true\<close>,
  \<open>Some (Inr False)\<close> a loop that ran to its end. The bounds \<^verbatim>\<open>world_point.x + tolerance\<close>
  and \<^verbatim>\<open>world_point.y + tolerance\<close> are computed at every test, as in the source. The
  inner loop's last \<^verbatim>\<open>p.x\<close> is not handed back: the outer loop assigns \<^verbatim>\<open>p.x\<close> before it
  reads it again.
\<close>

partial_function (option) validPointPotential_x_loop ::
  "costmap \<Rightarrow> navfn \<Rightarrow> point \<Rightarrow> real \<Rightarrow> point \<Rightarrow> (error + bool) option" where
  "validPointPotential_x_loop c n world_point tolerance p =
     (case fadd (point_x world_point) tolerance of
        None \<Rightarrow> Some (Inl NonFinite)
      | Some x_max \<Rightarrow>
          if point_x p \<le> x_max then
            (case getPointPotential c n p of
               Inl e \<Rightarrow> Some (Inl e)
             | Inr potential \<Rightarrow>
                 if potential < POT_HIGH then Some (Inr True)
                 else
                   (case fadd (point_x p) (resolution c) of
                      None \<Rightarrow> Some (Inl NonFinite)
                    | Some x' \<Rightarrow>
                        validPointPotential_x_loop c n world_point tolerance
                          (p\<lparr>point_x := x'\<rparr>)))
          else Some (Inr False))"

partial_function (option) validPointPotential_y_loop ::
  "costmap \<Rightarrow> navfn \<Rightarrow> point \<Rightarrow> real \<Rightarrow> point \<Rightarrow> (error + bool) option" where
  "validPointPotential_y_loop c n world_point tolerance p =
     (case fadd (point_y world_point) tolerance of
        None \<Rightarrow> Some (Inl NonFinite)
      | Some y_max \<Rightarrow>
          if point_y p \<le> y_max then
            (case fsub (point_x world_point) tolerance of
               None \<Rightarrow> Some (Inl NonFinite)
             | Some x_min \<Rightarrow>
                (case validPointPotential_x_loop c n world_point tolerance
                        (p\<lparr>point_x := x_min\<rparr>) of
                   None \<Rightarrow> None
                 | Some (Inl e) \<Rightarrow> Some (Inl e)
                 | Some (Inr found) \<Rightarrow>
                     if found then Some (Inr True)
                     else
                       (case fadd (point_y p) (resolution c) of
                          None \<Rightarrow> Some (Inl NonFinite)
                        | Some y' \<Rightarrow>
                            validPointPotential_y_loop c n world_point tolerance
                              (p\<lparr>point_y := y'\<rparr>))))
          else Some (Inr False))"

definition validPointPotential ::
  "costmap \<Rightarrow> navfn \<Rightarrow> point \<Rightarrow> real \<Rightarrow> (error + bool) option" where
  "validPointPotential c n world_point tolerance =
     (case fsub (point_y world_point) tolerance of
        None \<Rightarrow> Some (Inl NonFinite)
      | Some y_min \<Rightarrow>
          validPointPotential_y_loop c n world_point tolerance
            (world_point\<lparr>point_y := y_min\<rparr>))"

section \<open>PathExtractor\<close>

text \<open>The pose that the plan loops build: the given planar position, \<open>z = 0\<close> and the
  identity orientation \<open>(0, 0, 0, 1)\<close>.\<close>

definition waypoint :: "real \<Rightarrow> real \<Rightarrow> pose" where
  "waypoint wx wy =
     \<lparr>position = \<lparr>point_x = wx, point_y = wy, point_z = 0\<rparr>,
      orientation = \<lparr>quat_x = 0, quat_y = 0, quat_z = 0, quat_w = 1\<rparr>\<rparr>"

text \<open>A loop that pushes one pose per element and stops at the first element whose pose
  has a coordinate that is not finite.\<close>

fun traverse :: "('a \<Rightarrow> error + 'b) \<Rightarrow> 'a list \<Rightarrow> error + 'b list" where
  "traverse f [] = Inr []"
| "traverse f (x # xs) =
     (case f x of
        Inl e \<Rightarrow> Inl e
      | Inr y \<Rightarrow> (case traverse f xs of Inl e \<Rightarrow> Inl e | Inr ys \<Rightarrow> Inr (y # ys)))"

text \<open>The argument of \<^verbatim>\<open>planner_->calcPath(costmap_->getSizeInCellsX() * 4)\<close>: an
  \<^verbatim>\<open>unsigned int\<close> product, passed as \<^verbatim>\<open>int\<close>.\<close>

definition calcPath_bound :: "costmap \<Rightarrow> int" where
  "calcPath_bound c = sint (size_x c * 4)"

text \<open>
  \<^verbatim>\<open>
  bool NavfnPlanner::getPlanFromPotential(const geometry_msgs::msg::Pose & goal,
                                          nav_msgs::msg::Path & plan)
  {
    plan.poses.clear();
    double wx = goal.position.x;
    double wy = goal.position.y;
    unsigned int mx, my;
    if (!worldToMap(wx, wy, mx, my)) { return false; }
    int map_goal[2];
    map_goal[0] = mx;
    map_goal[1] = my;
    planner_->setStart(map_goal);
    int path_len = planner_->calcPath(costmap_->getSizeInCellsX() * 4);
    if (path_len == 0) { return false; }
    float * x = planner_->getPathX();
    float * y = planner_->getPathY();
    int len = planner_->getPathLen();
    for (int i = len - 1; i >= 0; --i) {
      double world_x, world_y;
      mapToWorld(x[i], y[i], world_x, world_y);
      geometry_msgs::msg::PoseStamped pose;
      pose.pose.position.x = world_x;
      ...
      plan.poses.push_back(pose);
    }
    return !plan.poses.empty();
  }
  \<close>
  The gradient descent of class NavFn is the parameter \<open>calcPath\<close>: given the cell passed
  to \<^verbatim>\<open>setStart\<close> and the bound passed to \<^verbatim>\<open>calcPath\<close>, it yields the value \<^verbatim>\<open>calcPath\<close>
  returns and the points \<open>(getPathX()[i], getPathY()[i])\<close> for \<open>i < getPathLen()\<close>.
\<close>

definition getPlanFromPotential ::
  "costmap \<Rightarrow> (cell \<Rightarrow> int \<Rightarrow> int \<times> (real \<times> real) list) \<Rightarrow> pose \<Rightarrow>
     error + (bool \<times> pose list)" where
  "getPlanFromPotential c calcPath goal =
     (case worldToMap c (point_x (position goal)) (point_y (position goal)) of
        Inl OutOfBounds \<Rightarrow> Inr (False, [])
      | Inl Undefined \<Rightarrow> Inl Undefined
      | Inl NonFinite \<Rightarrow> Inl NonFinite
      | Inr map_goal \<Rightarrow>
          (case calcPath map_goal (calcPath_bound c) of
             (path_len, path) \<Rightarrow>
               if path_len = 0 then Inr (False, [])
               else
                 (case traverse (\<lambda>(px, py). case mapToWorld c px py of
                                     Inl e \<Rightarrow> Inl e
                                   | Inr (world_x, world_y) \<Rightarrow> Inr (waypoint world_x world_y))
                                (rev path) of
                    Inl e \<Rightarrow> Inl e
                  | Inr plan \<Rightarrow> Inr (plan \<noteq> [], plan))))"

text \<open>
  Modelled from the spec: \<^verbatim>\<open>NavFn::calcPath\<close> with \<^verbatim>\<open>getPathX\<close>, \<^verbatim>\<open>getPathY\<close> and
  \<^verbatim>\<open>getPathLen\<close>; \<^verbatim>\<open>navfn.cpp\<close> is not among the sources. The specification's PathExtractor
  traces cells from the seed to the propagation source, stepping each time to the
  neighbour with the strictly lowest potential, within a bound on the number of steps;
  exceeding the bound, or meeting a cell that is not the source and has no strictly lower
  neighbour, is reported as no path. The result runs from the seed, at index 0, to the
  source. The potential field enters through two parameters: \<open>at_source\<close> recognises the
  propagation source, and \<open>lower\<close> gives the neighbour to step to, \<open>None\<close> when no
  neighbour is strictly lower. The descent recurses on the number of steps left.
\<close>

datatype extraction = Path "cell list" | BoundExceeded | NoPath

fun descend :: "(cell \<Rightarrow> bool) \<Rightarrow> (cell \<Rightarrow> cell option) \<Rightarrow> nat \<Rightarrow> cell \<Rightarrow> extraction" where
  "descend at_source lower 0 cur = (if at_source cur then Path [cur] else BoundExceeded)"
| "descend at_source lower (Suc k) cur =
     (if at_source cur then Path [cur]
      else
        (case lower cur of
           None \<Rightarrow> NoPath
         | Some next \<Rightarrow>
            (case descend at_source lower k next of
               Path cells \<Rightarrow> Path (cur # cells)
             | BoundExceeded \<Rightarrow> BoundExceeded
             | NoPath \<Rightarrow> NoPath)))"

definition calcPath ::
  "(cell \<Rightarrow> bool) \<Rightarrow> (cell \<Rightarrow> cell option) \<Rightarrow> cell \<Rightarrow> int \<Rightarrow> int \<times> (real \<times> real) list" where
  "calcPath at_source lower seed n =
     (case descend at_source lower (nat n) seed of
        Path cells \<Rightarrow>
          (int (length cells), map (\<lambda>(mx, my). (real (unat mx), real (unat my))) cells)
      | BoundExceeded \<Rightarrow> (0, [])
      | NoPath \<Rightarrow> (0, []))"

section \<open>PlannerFacade\<close>

text \<open>\<^verbatim>\<open>static_cast<size_t>\<close> of a \<^verbatim>\<open>double\<close>: truncation towards zero, defined only
  when the truncated value is a 64-bit unsigned number.\<close>

definition static_cast_size_t :: "real \<Rightarrow> nat option" where
  "static_cast_size_t r = (if - 1 < r \<and> r < 2 ^ 64 then Some (nat \<lfloor>r\<rfloor>) else None)"

text \<open>Lines 244 to 248 of the source: the distance of the two positions, divided by the
  resolution and truncated. Every operation is a double operation; \<open>None\<close> is the
  undefined cast, of a quotient that is not finite or not in the range of \<^verbatim>\<open>size_t\<close>.\<close>

definition number_of_points :: "costmap \<Rightarrow> pose \<Rightarrow> pose \<Rightarrow> nat option" where
  "number_of_points c start goal =
     (case fsub (point_x (position goal)) (point_x (position start)) of
        None \<Rightarrow> None
      | Some dx \<Rightarrow>
         (case fsub (point_y (position goal)) (point_y (position start)) of
            None \<Rightarrow> None
          | Some dy \<Rightarrow>
             (case fmul dx dx of
                None \<Rightarrow> None
              | Some xx \<Rightarrow>
                 (case fmul dy dy of
                    None \<Rightarrow> None
                  | Some yy \<Rightarrow>
                     (case fadd xx yy of
                        None \<Rightarrow> None
                      | Some s \<Rightarrow>
                         (case fsqrt s of
                            None \<Rightarrow> None
                          | Some path_length \<Rightarrow>
                             (case fdiv path_length (resolution c) of
                                None \<Rightarrow> None
                              | Some q \<Rightarrow> static_cast_size_t q)))))))"

text \<open>One coordinate of the \<open>i\<close>-th pose of the loop, \<^verbatim>\<open>start + i * diff\<close> with
  \<^verbatim>\<open>diff = (goal - start) / number_of_points\<close>, \<open>k\<close> being the number of points; \<open>None\<close>
  when it is not finite.\<close>

definition interpolate :: "real \<Rightarrow> real \<Rightarrow> nat \<Rightarrow> nat \<Rightarrow> real option" where
  "interpolate s g k i =
     (case fsub g s of
        None \<Rightarrow> None
      | Some d \<Rightarrow>
         (case fdiv d (double_of_size_t k) of
            None \<Rightarrow> None
          | Some diff \<Rightarrow>
             (case fmul (double_of_size_t i) diff of
                None \<Rightarrow> None
              | Some step \<Rightarrow> fadd s step)))"

text \<open>
  \<^verbatim>\<open>
  bool NavfnPlanner::makePlan(const geometry_msgs::msg::Pose & start,
    const geometry_msgs::msg::Pose & goal, double tolerance, nav_msgs::msg::Path & plan)
  {
    plan.poses.clear();
    double wx = start.position.x;
    double wy = start.position.y;
    unsigned int mx, my;
    if (!worldToMap(wx, wy, mx, my)) { return false; }
    clearRobotCell(mx, my);
    planner_->setNavArr(costmap_->getSizeInCellsX(), costmap_->getSizeInCellsY());
    planner_->setCostmap(costmap_->getCharMap(), true, allow_unknown_);
    int map_start[2]; map_start[0] = mx; map_start[1] = my;
    wx = goal.position.x;
    wy = goal.position.y;
    if (!worldToMap(wx, wy, mx, my)) { return false; }
    int map_goal[2]; map_goal[0] = mx; map_goal[1] = my;
    planner_->setStart(map_goal);
    planner_->setGoal(map_start);
    if (use_astar_) { planner_->calcNavFnAstar(); } else { planner_->calcNavFnDijkstra(true); }
    double resolution = costmap_->getResolution();
    geometry_msgs::msg::Pose p, best_pose;
    p = goal;
    p.position.y = goal.position.y - tolerance;
    // temporarily comment out the original planner
    /* ... the tolerance search, getPlanFromPotential, smoothApproachToGoal ... */
    double path_length = sqrt((goal.position.x - start.position.x) * (goal.position.x - start.position.x) +
                              (goal.position.y - start.position.y) * (goal.position.y - start.position.y));
    size_t number_of_points = static_cast<size_t>(path_length / resolution);
    double x_diff = (goal.position.x - start.position.x) / number_of_points;
    double y_diff = (goal.position.y - start.position.y) / number_of_points;
    for (size_t i = 0; i < number_of_points; i++) {
      geometry_msgs::msg::PoseStamped pose;
      pose.pose.position.x = start.position.x + i * x_diff;
      pose.pose.position.y = start.position.y + i * y_diff;
      ...
      plan.poses.push_back(pose);
    }
    geometry_msgs::msg::PoseStamped goal_copy;
    goal_copy.pose = goal;
    plan.poses.push_back(goal_copy);
    return !plan.poses.empty();
  }
  \<close>
  The calls into class NavFn, which is not among the sources, are two parameters:
  \<open>setCostmap\<close> stands for \<^verbatim>\<open>setNavArr\<close> followed by \<^verbatim>\<open>setCostmap\<close>, and
  \<open>calcNavFn n a b\<close> for \<^verbatim>\<open>setStart(a)\<close>, \<^verbatim>\<open>setGoal(b)\<close> and the propagation
  (\<^verbatim>\<open>calcNavFnAstar\<close> or \<^verbatim>\<open>calcNavFnDijkstra\<close>) run on the planner state \<open>n\<close>. The model
  returns the planner state next to the result and the plan. The local \<^verbatim>\<open>p\<close> is written
  and never read. With \<^verbatim>\<open>number_of_points\<close> zero the C++ increments are an infinity or a
  NaN and the loop body, their only reader, does not run; the model computes the
  increments inside the loop body.
\<close>

definition makePlan ::
  "costmap \<Rightarrow> (navfn \<Rightarrow> navfn) \<Rightarrow> (navfn \<Rightarrow> cell \<Rightarrow> cell \<Rightarrow> navfn) \<Rightarrow>
     navfn \<Rightarrow> pose \<Rightarrow> pose \<Rightarrow> real \<Rightarrow> error + (bool \<times> pose list \<times> navfn)" where
  "makePlan c setCostmap calcNavFn n start goal tolerance =
     (case worldToMap c (point_x (position start)) (point_y (position start)) of
        Inl OutOfBounds \<Rightarrow> Inr (False, [], n)
      | Inl Undefined \<Rightarrow> Inl Undefined
      | Inl NonFinite \<Rightarrow> Inl NonFinite
      | Inr map_start \<Rightarrow>
          (let n1 = setCostmap n in
           case worldToMap c (point_x (position goal)) (point_y (position goal)) of
             Inl OutOfBounds \<Rightarrow> Inr (False, [], n1)
           | Inl Undefined \<Rightarrow> Inl Undefined
           | Inl NonFinite \<Rightarrow> Inl NonFinite
           | Inr map_goal \<Rightarrow>
               (let n2 = calcNavFn n1 map_goal map_start
                in case number_of_points c start goal of
                     None \<Rightarrow> Inl Undefined
                   | Some k \<Rightarrow>
                       (case traverse
                               (\<lambda>i. case interpolate (point_x (position start))
                                            (point_x (position goal)) k i of
                                       None \<Rightarrow> Inl NonFinite
                                     | Some px \<Rightarrow>
                                        (case interpolate (point_y (position start))
                                                (point_y (position goal)) k i of
                                           None \<Rightarrow> Inl NonFinite
                                         | Some py \<Rightarrow> Inr (waypoint px py)))
                               [0..<k] of
                          Inl e \<Rightarrow> Inl e
                        | Inr poses \<Rightarrow>
                            (let plan = poses @ [goal] in Inr (plan \<noteq> [], plan, n2))))))"

section \<open>The neighbourhood scan and two potential fields\<close>

text \<open>The coordinate that a loop of \<^verbatim>\<open>validPointPotential\<close> holds after \<open>i\<close> increments:
  it starts at \<open>lo\<close> and every increment is a double addition of the resolution.\<close>

fun sweep :: "real \<Rightarrow> real \<Rightarrow> nat \<Rightarrow> real option" where
  "sweep res lo 0 = Some lo"
| "sweep res lo (Suc i) = (case sweep res lo i of None \<Rightarrow> None | Some v \<Rightarrow> fadd v res)"

text \<open>The point \<^verbatim>\<open>p\<close> that \<^verbatim>\<open>validPointPotential\<close> hands to \<^verbatim>\<open>getPointPotential\<close> after
  \<open>j\<close> increments of \<^verbatim>\<open>p.y\<close> and, in that row, \<open>i\<close> increments of \<^verbatim>\<open>p.x\<close>: the loops
  start at \<open>world_point - tolerance\<close> in each coordinate.\<close>

definition candidate :: "costmap \<Rightarrow> point \<Rightarrow> real \<Rightarrow> nat \<Rightarrow> nat \<Rightarrow> point option" where
  "candidate c world_point tolerance i j =
     (case fsub (point_x world_point) tolerance of
        None \<Rightarrow> None
      | Some x_min \<Rightarrow>
         (case fsub (point_y world_point) tolerance of
            None \<Rightarrow> None
          | Some y_min \<Rightarrow>
             (case sweep (resolution c) x_min i of
                None \<Rightarrow> None
              | Some px \<Rightarrow>
                 (case sweep (resolution c) y_min j of
                    None \<Rightarrow> None
                  | Some py \<Rightarrow> Some (world_point\<lparr>point_x := px, point_y := py\<rparr>)))))"

text \<open>A 5 by 5 grid of resolution 1 with its origin at \<open>(0, 0)\<close>, and two potential
  fields over it, indexed \<open>y * nx + x\<close>. In the first only the cell \<open>(1, 1)\<close> (index 6),
  where the propagation starts, is reached. In the second the cell \<open>(2, 1)\<close> (index 7) is
  reached as well, and its neighbour \<open>(3, 1)\<close> (index 8) is not.\<close>

definition grid5 :: costmap where
  "grid5 = \<lparr>origin_x = 0, origin_y = 0, resolution = 1, size_x = 5, size_y = 5\<rparr>"

definition field_start_only :: navfn where
  "field_start_only = \<lparr>nx = 5, ny = 5, potarr = (replicate 25 POT_HIGH)[6 := 0]\<rparr>"

definition field_goal_walled :: navfn where
  "field_goal_walled = \<lparr>nx = 5, ny = 5, potarr = (replicate 25 POT_HIGH)[6 := 0, 7 := 50]\<rparr>"

section \<open>Binary64 arithmetic: rounding errors\<close>

text \<open>The unfolding that evaluates the double operations on numerals.\<close>

lemmas float_eval = double_of_def rd_def ulp_def round_even_def ilog2_def compute_floorlog
  fadd_def fsub_def fmul_def fdiv_def fsqrt_def DBL_MAX_def

text \<open>Rounding to the nearest double is within half a unit in the last place, hence within
  the relative error \<open>2\<^sup>-\<^sup>5\<^sup>3\<close> and the absolute error \<open>2\<^sup>-\<^sup>1\<^sup>0\<^sup>7\<^sup>5\<close> of the subnormal range.\<close>

lemma ilog2_bounds:
  assumes "0 < x"
  shows "2 powi (ilog2 x) \<le> x \<and> x < 2 powi (ilog2 x + 1)"
proof (cases "1 \<le> x")
  case True
  define n where "n = nat \<lfloor>x\<rfloor>"
  have n1: "0 < n" using True by (simp add: n_def)
  have nx: "real n \<le> x" "x < real n + 1" using True by (simp_all add: n_def)
  from floorlog_bounds[OF n1, of 2]
  have b: "2 ^ (floorlog 2 n - 1) \<le> n" "n < 2 ^ floorlog 2 n" by simp_all
  have fpos: "0 < floorlog 2 n" using n1 by (simp add: floorlog_def)
  have il: "ilog2 x = int (floorlog 2 n) - 1" using True by (simp add: ilog2_def n_def)
  have e1: "(2::real) powi (int (floorlog 2 n) - 1) = 2 ^ (floorlog 2 n - 1)"
    using fpos by (simp add: power_int_def nat_diff_distrib')
  have e2: "(2::real) powi (int (floorlog 2 n) - 1 + 1) = 2 ^ floorlog 2 n"
    by (simp add: power_int_def)
  have "(2::real) ^ (floorlog 2 n - 1) \<le> real n"
    using b(1) by (metis of_nat_le_iff of_nat_numeral of_nat_power)
  with nx have lo: "(2::real) ^ (floorlog 2 n - 1) \<le> x" by linarith
  have "n + 1 \<le> 2 ^ floorlog 2 n" using b(2) by simp
  then have "real (n + 1) \<le> 2 ^ floorlog 2 n"
    by (metis of_nat_le_iff of_nat_numeral of_nat_power)
  with nx have hi: "x < 2 ^ floorlog 2 n" by simp
  from lo hi show ?thesis unfolding il e1 e2 by simp
next
  case False
  define y where "y = 1 / x"
  have y1: "1 < y" using False assms by (simp add: y_def)
  define n where "n = nat (\<lceil>y\<rceil> - 1)"
  have cy: "2 \<le> \<lceil>y\<rceil>" using y1 by (simp add: le_ceiling_iff)
  have n1: "0 < n" using cy by (simp add: n_def)
  have rn: "real n = real_of_int \<lceil>y\<rceil> - 1" using cy by (simp add: n_def)
  have ny: "real n < y" "y \<le> real n + 1" unfolding rn by linarith+
  from floorlog_bounds[OF n1, of 2]
  have b: "2 ^ (floorlog 2 n - 1) \<le> n" "n < 2 ^ floorlog 2 n" by simp_all
  have fpos: "0 < floorlog 2 n" using n1 by (simp add: floorlog_def)
  have il: "ilog2 x = - int (floorlog 2 n)" using False by (simp add: ilog2_def n_def y_def)
  have "(2::real) ^ (floorlog 2 n - 1) \<le> real n"
    using b(1) by (metis of_nat_le_iff of_nat_numeral of_nat_power)
  with ny have lo: "(2::real) ^ (floorlog 2 n - 1) < y" by linarith
  have "n + 1 \<le> 2 ^ floorlog 2 n" using b(2) by simp
  then have "real (n + 1) \<le> 2 ^ floorlog 2 n"
    by (metis of_nat_le_iff of_nat_numeral of_nat_power)
  with ny have hi: "y \<le> 2 ^ floorlog 2 n" by simp
  have e1: "(2::real) powi (- int (floorlog 2 n)) = 1 / 2 ^ floorlog 2 n"
    by (simp add: power_int_def field_simps)
  have e2: "(2::real) powi (- int (floorlog 2 n) + 1) = 1 / 2 ^ (floorlog 2 n - 1)"
    using fpos by (cases "floorlog 2 n") (simp_all add: power_int_def field_simps nat_diff_distrib')
  have x1: "1 / 2 ^ floorlog 2 n \<le> x"
    using hi assms unfolding y_def by (simp add: field_simps)
  have x2: "x < 1 / 2 ^ (floorlog 2 n - 1)"
    using lo assms unfolding y_def by (simp add: field_simps)
  from x1 x2 show ?thesis unfolding il e1 e2 by simp
qed

lemma round_even_bounds: "\<bar>real_of_int (round_even y) - y\<bar> \<le> 1 / 2"
  unfolding round_even_def Let_def by (auto; linarith)

lemma round_even_nonneg: "0 \<le> y \<Longrightarrow> 0 \<le> round_even y"
  unfolding round_even_def Let_def by (auto; linarith)

lemma ulp_pos: "0 < ulp x" by (simp add: ulp_def)

lemma rd_nonneg: "0 \<le> x \<Longrightarrow> 0 \<le> rd x"
  using ulp_pos[of x] by (simp add: rd_def round_even_nonneg)

lemma rd_zero: "rd 0 = 0" by (simp add: rd_def)

lemma rd_error_ulp: "\<bar>rd x - x\<bar> \<le> ulp x / 2"
proof (cases "x = 0")
  case True
  then show ?thesis using ulp_pos[of 0] by (simp add: rd_def)
next
  case False
  have "rd x - x = (real_of_int (round_even (x / ulp x)) - x / ulp x) * ulp x"
    using False ulp_pos[of x] by (simp add: rd_def field_simps)
  then have "\<bar>rd x - x\<bar> = \<bar>real_of_int (round_even (x / ulp x)) - x / ulp x\<bar> * ulp x"
    using ulp_pos[of x] by (simp add: abs_mult)
  also have "\<dots> \<le> (1 / 2) * ulp x"
    using round_even_bounds[of "x / ulp x"] ulp_pos[of x] by (intro mult_right_mono) simp_all
  finally show ?thesis by simp
qed

lemma ulp_le:
  assumes "x \<noteq> 0"
  shows "ulp x \<le> \<bar>x\<bar> / 2 ^ 52 + 1 / 2 ^ 1074"
proof (cases "ilog2 \<bar>x\<bar> \<le> - 1022")
  case True
  then have "max (ilog2 \<bar>x\<bar>) (- 1022) = - 1022" by auto
  then have "ulp x = 2 powi (- 1074)" by (simp add: ulp_def)
  also have "\<dots> = 1 / 2 ^ 1074" by (simp add: power_int_def field_simps)
  finally show ?thesis by simp
next
  case False
  with assms have x: "0 < \<bar>x\<bar>" and e: "max (ilog2 \<bar>x\<bar>) (- 1022) = ilog2 \<bar>x\<bar>" by auto
  have "ulp x = 2 powi (ilog2 \<bar>x\<bar>) / 2 ^ 52"
    unfolding ulp_def e by (simp add: power_int_diff)
  also have "\<dots> \<le> \<bar>x\<bar> / 2 ^ 52"
    using ilog2_bounds[OF x] by (simp add: divide_right_mono)
  finally show ?thesis by simp
qed

lemma rd_error: "\<bar>rd x - x\<bar> \<le> \<bar>x\<bar> / 2 ^ 53 + 1 / 2 ^ 1075"
proof (cases "x = 0")
  case True
  then show ?thesis by (simp add: rd_def)
next
  case False
  have "\<bar>rd x - x\<bar> \<le> ulp x / 2" by (rule rd_error_ulp)
  also have "\<dots> \<le> (\<bar>x\<bar> / 2 ^ 52 + 1 / 2 ^ 1074) / 2"
    using ulp_le[OF False] by simp
  also have "\<dots> = \<bar>x\<bar> / 2 ^ 53 + 1 / 2 ^ 1075" by simp
  finally show ?thesis .
qed

lemma double_of_SomeD: "double_of x = Some r \<Longrightarrow> r = rd x \<and> \<bar>r\<bar> \<le> DBL_MAX"
  by (auto simp: double_of_def Let_def split: if_splits)

lemma double_of_zero: "double_of 0 = Some 0"
  by (simp add: double_of_def rd_zero DBL_MAX_def)

lemma double_of_nonneg: "0 \<le> x \<Longrightarrow> double_of x = Some r \<Longrightarrow> 0 \<le> r"
  using rd_nonneg by (auto dest: double_of_SomeD)

lemma double_of_error:
  "double_of x = Some r \<Longrightarrow> \<bar>r - x\<bar> \<le> \<bar>x\<bar> / 2 ^ 53 + 1 / 2 ^ 1075"
  using rd_error[of x] by (auto dest: double_of_SomeD)

lemma round_even_le_int: "y \<le> of_int K \<Longrightarrow> round_even y \<le> K"
  unfolding round_even_def Let_def by (auto; linarith)

lemma round_even_ge_int: "of_int K \<le> y \<Longrightarrow> K \<le> round_even y"
  unfolding round_even_def Let_def by (auto; linarith)

text \<open>Rounding does not leave the finite range.\<close>

lemma rd_le_DBL_MAX:
  assumes "\<bar>x\<bar> \<le> DBL_MAX"
  shows "\<bar>rd x\<bar> \<le> DBL_MAX"
proof (cases "x = 0")
  case True
  then show ?thesis by (simp add: rd_def DBL_MAX_def)
next
  case False
  then have x: "0 < \<bar>x\<bar>" by simp
  define e where "e = ilog2 \<bar>x\<bar>"
  define j where "j = max e (- 1022) - 52"
  have u: "ulp x = 2 powi j" by (simp add: ulp_def e_def j_def)
  have "2 powi e \<le> \<bar>x\<bar>" using ilog2_bounds[OF x] by (simp add: e_def)
  also note assms
  also have "DBL_MAX < 2 powi 1024" by (simp add: DBL_MAX_def)
  finally have "e < 1024" by (rule power_int_le_imp_less_exp[rotated]) simp_all
  then have j: "j \<le> 971" by (simp add: j_def)
  define K :: int where "K = (2 ^ 53 - 1) * 2 ^ nat (971 - j)"
  have "(2 :: real) ^ nat (971 - j) * 2 powi j = 2 powi (971 - j) * 2 powi j"
    using j by (simp add: power_int_nonneg_exp)
  also have "\<dots> = 2 powi 971" by (simp add: power_int_add[symmetric])
  finally have p: "(2 :: real) ^ nat (971 - j) * 2 powi j = 2 ^ 971" by simp
  have Ku: "of_int K * ulp x = DBL_MAX"
    unfolding K_def u DBL_MAX_def using p by (simp add: mult.assoc)
  have up: "0 < ulp x" by (rule ulp_pos)
  have "\<bar>x\<bar> \<le> of_int K * ulp x" using assms Ku by simp
  then have "\<bar>x\<bar> / ulp x \<le> of_int K" using up by (simp add: pos_divide_le_eq)
  then have "x / ulp x \<le> of_int K" "of_int (- K) \<le> x / ulp x"
    using up by (simp_all add: abs_le_iff minus_divide_left[symmetric] field_simps)
  then have "round_even (x / ulp x) \<le> K" "- K \<le> round_even (x / ulp x)"
    by (simp_all only: round_even_le_int round_even_ge_int)
  then have "\<bar>real_of_int (round_even (x / ulp x))\<bar> \<le> of_int K" by linarith
  then have "\<bar>real_of_int (round_even (x / ulp x))\<bar> * ulp x \<le> of_int K * ulp x"
    using up by (simp add: mult_right_mono)
  then show ?thesis using False up Ku by (simp add: rd_def abs_mult)
qed

lemma double_of_finite: "\<bar>x\<bar> \<le> DBL_MAX \<Longrightarrow> double_of x = Some (rd x)"
  by (simp add: double_of_def rd_le_DBL_MAX)

lemma fsub_nonneg: "b \<le> a \<Longrightarrow> fsub a b = Some d \<Longrightarrow> 0 \<le> d"
  unfolding fsub_def by (rule double_of_nonneg[of "a - b"]) simp_all

lemma fdiv_nonneg: "0 \<le> a \<Longrightarrow> 0 < b \<Longrightarrow> fdiv a b = Some q \<Longrightarrow> 0 \<le> q"
  unfolding fdiv_def by (auto split: if_splits intro: double_of_nonneg[of "a / b"])

lemma fsub_error: "fsub a b = Some r \<Longrightarrow> \<bar>r - (a - b)\<bar> \<le> \<bar>a - b\<bar> / 2 ^ 53 + 1 / 2 ^ 1075"
  unfolding fsub_def by (rule double_of_error)

lemma fadd_error: "fadd a b = Some r \<Longrightarrow> \<bar>r - (a + b)\<bar> \<le> \<bar>a + b\<bar> / 2 ^ 53 + 1 / 2 ^ 1075"
  unfolding fadd_def by (rule double_of_error)

lemma fmul_error: "fmul a b = Some r \<Longrightarrow> \<bar>r - a * b\<bar> \<le> \<bar>a * b\<bar> / 2 ^ 53 + 1 / 2 ^ 1075"
  unfolding fmul_def by (rule double_of_error)

lemma fdiv_error: "fdiv a b = Some r \<Longrightarrow> \<bar>r - a / b\<bar> \<le> \<bar>a / b\<bar> / 2 ^ 53 + 1 / 2 ^ 1075"
  unfolding fdiv_def by (auto split: if_splits dest: double_of_error)

lemma is_double_sub_zero: "is_double v \<Longrightarrow> fsub v 0 = Some v"
  by (simp add: is_double_def fsub_def)

lemma is_double_add_zero: "is_double v \<Longrightarrow> fadd v 0 = Some v"
  by (simp add: is_double_def fadd_def)

text \<open>A double operation whose exact result is at most \<open>B\<close> in absolute value, \<open>B\<close> far
  below the overflow threshold: it is finite, and at most \<open>B\<close> plus one rounding error.\<close>

lemma double_of_step:
  assumes x: "\<bar>x\<bar> \<le> B" and B: "B \<le> 2 ^ 1020"
  shows "\<exists>y. double_of x = Some y \<and> \<bar>y\<bar> \<le> B + B / 2 ^ 53 + 1 / 2 ^ 1075 \<and> (0 \<le> x \<longrightarrow> 0 \<le> y)"
proof -
  have "(2 :: real) ^ 1020 \<le> DBL_MAX" by (simp add: DBL_MAX_def)
  with x B have "\<bar>x\<bar> \<le> DBL_MAX" by linarith
  then have y: "double_of x = Some (rd x)" by (rule double_of_finite)
  have "\<bar>rd x - x\<bar> \<le> \<bar>x\<bar> / 2 ^ 53 + 1 / 2 ^ 1075" by (rule rd_error)
  moreover have "\<bar>x\<bar> / 2 ^ 53 \<le> B / 2 ^ 53" using x by (simp add: divide_right_mono)
  ultimately have "\<bar>rd x\<bar> \<le> B + B / 2 ^ 53 + 1 / 2 ^ 1075" using x by linarith
  with y rd_nonneg[of x] show ?thesis by simp
qed

lemma rd_one: "rd 1 = 1"
  by (simp add: float_eval)

section \<open>Auxiliary facts\<close>

lemma std_round_bounds:
  "0 \<le> r \<Longrightarrow>
     0 \<le> std_round r \<and> r - 1 / 2 < real_of_int (std_round r) \<and>
     real_of_int (std_round r) \<le> r + 1 / 2"
  unfolding std_round_def by (simp; linarith)

lemma uint_word_of_int_small:
  "0 \<le> v \<Longrightarrow> v < 2 ^ 31 \<Longrightarrow> uint (word_of_int v :: uint) = v"
  by (simp add: uint_word_of_int take_bit_int_eq_self)

lemma list_update_last_snoc:
  "xs \<noteq> [] \<Longrightarrow> xs[length xs - 1 := v] = butlast xs @ [v]"
  by (cases xs rule: rev_cases) simp_all

lemma greater_inf_irrefl: "\<not> greater_inf a a"
  by (simp add: greater_inf_def split: option.splits)

lemma cell_of_Some:
  "cell_of w origin res = Some i \<longleftrightarrow>
     (\<exists>d q. fsub w origin = Some d \<and> fdiv d res = Some q \<and> i = std_round q \<and>
            - (2 ^ 31) \<le> i \<and> i < 2 ^ 31)"
  by (auto simp: cell_of_def static_cast_int_def split: option.splits)

text \<open>What a successful conversion tells about its inputs and outputs.\<close>

lemma worldToMap_Inr:
  assumes "0 < resolution c" "worldToMap c wx wy = Inr (mx, my)"
  shows "origin_x c \<le> wx \<and> origin_y c \<le> wy \<and> mx < size_x c \<and> my < size_y c \<and>
         (\<exists>dx qx dy qy.
            fsub wx (origin_x c) = Some dx \<and> fdiv dx (resolution c) = Some qx \<and>
            fsub wy (origin_y c) = Some dy \<and> fdiv dy (resolution c) = Some qy \<and>
            0 \<le> dx \<and> 0 \<le> qx \<and> 0 \<le> dy \<and> 0 \<le> qy \<and>
            uint mx = std_round qx \<and> uint my = std_round qy)"
proof -
  from assms(2) have ox: "origin_x c \<le> wx" and oy: "origin_y c \<le> wy"
    by (auto simp: worldToMap_def split: if_splits)
  from assms(2) ox oy obtain ix iy where
    ix: "cell_of wx (origin_x c) (resolution c) = Some ix" and
    iy: "cell_of wy (origin_y c) (resolution c) = Some iy" and
    m: "mx = word_of_int ix" "my = word_of_int iy" "mx < size_x c" "my < size_y c"
    by (auto simp: worldToMap_def Let_def split: if_splits option.splits)
  from ix obtain dx qx where x: "fsub wx (origin_x c) = Some dx"
    "fdiv dx (resolution c) = Some qx" "ix = std_round qx" "ix < 2 ^ 31"
    unfolding cell_of_Some by blast
  from iy obtain dy qy where y: "fsub wy (origin_y c) = Some dy"
    "fdiv dy (resolution c) = Some qy" "iy = std_round qy" "iy < 2 ^ 31"
    unfolding cell_of_Some by blast
  have dx: "0 \<le> dx" using fsub_nonneg[OF ox x(1)] .
  have dy: "0 \<le> dy" using fsub_nonneg[OF oy y(1)] .
  have qx: "0 \<le> qx" using fdiv_nonneg[OF dx assms(1) x(2)] .
  have qy: "0 \<le> qy" using fdiv_nonneg[OF dy assms(1) y(2)] .
  have "0 \<le> ix" "0 \<le> iy" using std_round_bounds[OF qx] std_round_bounds[OF qy] x(3) y(3)
    by simp_all
  then have "uint mx = ix" "uint my = iy"
    using x(4) y(4) m by (simp_all add: uint_word_of_int_small)
  with ox oy m x y dx dy qx qy show ?thesis by blast
qed

lemma waypoint_position:
  "point_x (position (waypoint a b)) = a" "point_y (position (waypoint a b)) = b"
  by (simp_all add: waypoint_def)

section \<open>PathSmoother: the terminal correction\<close>

text \<open>
  Claim C3, as the code has it. On a path of at least two waypoints, let (a) be the
  squared distance that the program computes, in doubles, between the last waypoint and
  the last-but-one, and (b) the one it computes between the true goal and the
  last-but-one. \<open>smoothApproachToGoal\<close> replaces the last waypoint by the goal when (a)
  is strictly greater than (b), and otherwise, a tie of the two computed values included,
  appends the goal as an additional final waypoint.
\<close>

theorem smoothApproachToGoal_strict:
  assumes "2 \<le> length plan"
  shows "smoothApproachToGoal goal plan =
           Inr (if greater_inf (squared_distance (last plan) (plan ! (length plan - 2)))
                               (squared_distance goal (plan ! (length plan - 2)))
                then butlast plan @ [goal] else plan @ [goal])"
proof -
  from assms have "plan \<noteq> []" by auto
  then have "plan[length plan - 1 := goal] = butlast plan @ [goal]"
    by (rule list_update_last_snoc)
  with assms show ?thesis
    by (simp add: smoothApproachToGoal_def Let_def)
qed

text \<open>Last-but-one waypoint \<open>(0, 0)\<close>, last waypoint \<open>(2, 0)\<close>, goal \<open>(1, 0)\<close>: the computed
  squared distances are 4 and 1, and the last waypoint is replaced.\<close>

theorem smoothApproachToGoal_strict_witness:
  "2 \<le> length [waypoint 0 0, waypoint 2 0] \<and>
   squared_distance (waypoint 2 0) (waypoint 0 0) = Some 4 \<and>
   squared_distance (waypoint 1 0) (waypoint 0 0) = Some 1 \<and>
   smoothApproachToGoal (waypoint 1 0) [waypoint 0 0, waypoint 2 0] =
     Inr [waypoint 0 0, waypoint 1 0]"
proof -
  have a: "squared_distance (waypoint 2 0) (waypoint 0 0) = Some 4"
    by (simp add: squared_distance_def waypoint_def float_eval)
  have b: "squared_distance (waypoint 1 0) (waypoint 0 0) = Some 1"
    by (simp add: squared_distance_def waypoint_def float_eval)
  from smoothApproachToGoal_strict [of "[waypoint 0 0, waypoint 2 0]" "waypoint 1 0"] a b
  show ?thesis by (simp add: greater_inf_def)
qed

text \<open>The tie: last-but-one waypoint \<open>(0, 0)\<close>, last waypoint \<open>(1, 0)\<close>, goal \<open>(0, 1)\<close>.
  Both computed squared distances are 1, and the goal is appended, not snapped.\<close>

theorem smoothApproachToGoal_tie_appends:
  "squared_distance (waypoint 0 1) (waypoint 0 0) = Some 1 \<and>
   squared_distance (waypoint 1 0) (waypoint 0 0) = Some 1 \<and>
   smoothApproachToGoal (waypoint 0 1) [waypoint 0 0, waypoint 1 0] =
     Inr [waypoint 0 0, waypoint 1 0, waypoint 0 1] \<and>
   smoothApproachToGoal (waypoint 0 1) [waypoint 0 0, waypoint 1 0] \<noteq>
     Inr [waypoint 0 0, waypoint 0 1]"
proof -
  have a: "squared_distance (waypoint 0 1) (waypoint 0 0) = Some 1"
    by (simp add: squared_distance_def waypoint_def float_eval)
  have b: "squared_distance (waypoint 1 0) (waypoint 0 0) = Some 1"
    by (simp add: squared_distance_def waypoint_def float_eval)
  show ?thesis
    by (simp add: smoothApproachToGoal_def Let_def a b greater_inf_def)
qed

text \<open>A tie that the rounding makes: last-but-one waypoint \<open>(0, 0)\<close>, last waypoint
  \<open>(0.6, 0.8)\<close>, each coordinate the nearest double, goal \<open>(1, 0)\<close>. In doubles
  \<open>0.6 * 0.6 + 0.8 * 0.8\<close> is 1, and the goal is appended.\<close>

lemma smoothApproachToGoal_rounded_tie:
  "rd (3 / 5) = 5404319552844595 / 2 ^ 53 \<and> rd (4 / 5) = 3602879701896397 / 2 ^ 52 \<and>
   squared_distance (waypoint (rd (3 / 5)) (rd (4 / 5))) (waypoint 0 0) = Some 1 \<and>
   squared_distance (waypoint 1 0) (waypoint 0 0) = Some 1 \<and>
   smoothApproachToGoal (waypoint 1 0) [waypoint 0 0, waypoint (rd (3 / 5)) (rd (4 / 5))] =
     Inr [waypoint 0 0, waypoint (rd (3 / 5)) (rd (4 / 5)), waypoint 1 0]"
proof -
  have a: "rd (3 / 5) = 5404319552844595 / 2 ^ 53" by (simp add: float_eval)
  have b: "rd (4 / 5) = 3602879701896397 / 2 ^ 52" by (simp add: float_eval)
  have s: "squared_distance (waypoint (rd (3 / 5)) (rd (4 / 5))) (waypoint 0 0) = Some 1"
    unfolding a b by (simp add: squared_distance_def waypoint_def float_eval)
  have t: "squared_distance (waypoint 1 0) (waypoint 0 0) = Some 1"
    by (simp add: squared_distance_def waypoint_def float_eval)
  have "smoothApproachToGoal (waypoint 1 0) [waypoint 0 0, waypoint (rd (3 / 5)) (rd (4 / 5))] =
     Inr [waypoint 0 0, waypoint (rd (3 / 5)) (rd (4 / 5)), waypoint 1 0]"
    by (simp add: smoothApproachToGoal_def Let_def s t greater_inf_def)
  with a b s t show ?thesis by simp
qed

text \<open>
  Claim C4, as the code has it. On a path of at least two waypoints whose terminal
  waypoint already equals the true goal pose, \<open>smoothApproachToGoal\<close> appends the goal
  once more: the path grows by one waypoint, so a second smoothing is not a no-op.
\<close>

theorem smoothApproachToGoal_at_goal_appends:
  assumes "2 \<le> length plan" and "last plan = goal"
  shows "smoothApproachToGoal goal plan = Inr (plan @ [goal])"
  using assms by (simp add: smoothApproachToGoal_def Let_def greater_inf_irrefl)

text \<open>The path from \<open>(0, 0)\<close> to the goal \<open>(1, 0)\<close>.\<close>

theorem smoothApproachToGoal_at_goal_appends_witness:
  "2 \<le> length [waypoint 0 0, waypoint 1 0] \<and>
   last [waypoint 0 0, waypoint 1 0] = waypoint 1 0 \<and>
   smoothApproachToGoal (waypoint 1 0) [waypoint 0 0, waypoint 1 0] =
     Inr ([waypoint 0 0, waypoint 1 0] @ [waypoint 1 0])"
  using smoothApproachToGoal_at_goal_appends [of "[waypoint 0 0, waypoint 1 0]" "waypoint 1 0"]
  by simp

text \<open>A path that ends at the goal \<open>(1, 0)\<close> is changed by the smoothing.\<close>

theorem smoothApproachToGoal_not_idempotent:
  "last [waypoint 0 0, waypoint 1 0] = waypoint 1 0 \<and>
   smoothApproachToGoal (waypoint 1 0) [waypoint 0 0, waypoint 1 0] \<noteq>
     Inr [waypoint 0 0, waypoint 1 0]"
  by (simp add: smoothApproachToGoal_def Let_def greater_inf_irrefl)

section \<open>CoordinateMapper: failure and round trip\<close>

text \<open>
  Claim C5. On a grid of positive resolution, let \<open>qx\<close> and \<open>qy\<close> be the doubles that the
  program computes for \<open>(x - origin.x) / resolution\<close> and \<open>(y - origin.y) / resolution\<close>, a
  subtraction and a division that are each rounded to the nearest double, and let an
  \<^verbatim>\<open>int\<close> hold their roundings to an integer. \<open>worldToMap\<close> fails exactly when
  \<open>x < origin.x\<close>, or \<open>y < origin.y\<close>, or a rounded index is not below the grid's size in
  its dimension; and when it does not fail it returns exactly the two rounded indices,
  never a clamped cell.
\<close>

theorem worldToMap_fails_exactly:
  assumes "0 < resolution c"
    and "fsub wx (origin_x c) = Some dx" and "fdiv dx (resolution c) = Some qx"
    and "fsub wy (origin_y c) = Some dy" and "fdiv dy (resolution c) = Some qy"
    and "std_round qx < 2 ^ 31" and "std_round qy < 2 ^ 31"
  shows "(worldToMap c wx wy = Inl OutOfBounds \<longleftrightarrow>
            wx < origin_x c \<or> wy < origin_y c \<or>
            uint (size_x c) \<le> std_round qx \<or> uint (size_y c) \<le> std_round qy) \<and>
         (worldToMap c wx wy \<noteq> Inl OutOfBounds \<longrightarrow>
            (\<exists>mx my. worldToMap c wx wy = Inr (mx, my) \<and>
               uint mx = std_round qx \<and> uint my = std_round qy))"
proof (cases "wx < origin_x c \<or> wy < origin_y c")
  case True
  then show ?thesis by (auto simp: worldToMap_def)
next
  case False
  let ?gx = "std_round qx"
  let ?gy = "std_round qy"
  from False have ox: "origin_x c \<le> wx" and oy: "origin_y c \<le> wy" by simp_all
  have qx: "0 \<le> qx"
    using fdiv_nonneg[OF fsub_nonneg[OF ox assms(2)] assms(1) assms(3)] .
  have qy: "0 \<le> qy"
    using fdiv_nonneg[OF fsub_nonneg[OF oy assms(4)] assms(1) assms(5)] .
  have g0: "0 \<le> ?gx" "0 \<le> ?gy"
    using std_round_bounds[OF qx] std_round_bounds[OF qy] by simp_all
  with assms have ux: "uint (word_of_int ?gx :: uint) = ?gx"
    and uy: "uint (word_of_int ?gy :: uint) = ?gy"
    by (simp_all add: uint_word_of_int_small)
  have cx: "cell_of wx (origin_x c) (resolution c) = Some ?gx"
    using g0 assms by (simp add: cell_of_def static_cast_int_def)
  have cy: "cell_of wy (origin_y c) (resolution c) = Some ?gy"
    using g0 assms by (simp add: cell_of_def static_cast_int_def)
  have lx: "(word_of_int ?gx :: uint) < size_x c \<longleftrightarrow> ?gx < uint (size_x c)"
    by (simp add: word_less_def ux)
  have ly: "(word_of_int ?gy :: uint) < size_y c \<longleftrightarrow> ?gy < uint (size_y c)"
    by (simp add: word_less_def uy)
  have "worldToMap c wx wy =
          (if ?gx < uint (size_x c) \<and> ?gy < uint (size_y c)
           then Inr (word_of_int ?gx, word_of_int ?gy) else Inl OutOfBounds)"
    using False by (simp add: worldToMap_def cx cy Let_def lx ly)
  with False ux uy show ?thesis by auto
qed

text \<open>A grid 2 cells wide with origin 0.35 and resolution 0.7, and the point x = 1.4
  (each the nearest double): the quotient is the double just below 1.5, the cell is 1.\<close>

theorem worldToMap_fails_exactly_witness:
  "0 < resolution \<lparr>origin_x = rd (7 / 20), origin_y = 0, resolution = rd (7 / 10),
                   size_x = 2, size_y = 2\<rparr> \<and>
   fsub (rd (7 / 5)) (rd (7 / 20)) = Some (1182194902184755 / 2 ^ 50) \<and>
   fdiv (1182194902184755 / 2 ^ 50) (rd (7 / 10)) = Some (6755399441055743 / 2 ^ 52) \<and>
   std_round (6755399441055743 / 2 ^ 52) = 1 \<and>
   worldToMap \<lparr>origin_x = rd (7 / 20), origin_y = 0, resolution = rd (7 / 10),
               size_x = 2, size_y = 2\<rparr> (rd (7 / 5)) 0 = Inr (1, 0)"
proof -
  let ?c = "\<lparr>origin_x = rd (7 / 20), origin_y = 0, resolution = rd (7 / 10),
             size_x = 2, size_y = 2\<rparr>"
  have o: "rd (7 / 20) = 6305039478318694 / 2 ^ 54" by (simp add: float_eval)
  have r: "rd (7 / 10) = 6305039478318694 / 2 ^ 53" by (simp add: float_eval)
  have x: "rd (7 / 5) = 6305039478318694 / 2 ^ 52" by (simp add: float_eval)
  have h1: "0 < resolution ?c" by (simp add: r)
  have h2: "fsub (rd (7 / 5)) (origin_x ?c) = Some (1182194902184755 / 2 ^ 50)"
    by (simp add: o x) (simp add: float_eval)
  have h3: "fdiv (1182194902184755 / 2 ^ 50) (resolution ?c) = Some (6755399441055743 / 2 ^ 52)"
    by (simp add: r) (simp add: float_eval)
  have h4: "fsub 0 (origin_y ?c) = Some 0" by (simp add: float_eval)
  have h5: "fdiv 0 (resolution ?c) = Some 0" by (simp add: r) (simp add: float_eval)
  have h6: "std_round (6755399441055743 / 2 ^ 52) < 2 ^ 31" by (simp add: std_round_def)
  have h7: "std_round 0 < 2 ^ 31" by (simp add: std_round_def)
  have s: "std_round (6755399441055743 / 2 ^ 52) = 1" by (simp add: std_round_def)
  have z: "std_round 0 = 0" by (simp add: std_round_def)
  have s': "std_round (6755399441055743 / 4503599627370496) = 1" using s by simp
  note T = worldToMap_fails_exactly [OF h1 h2 h3 h4 h5 h6 h7]
  have "worldToMap ?c (rd (7 / 5)) 0 \<noteq> Inl OutOfBounds"
    using T[THEN conjunct1] by (simp add: s' z o x)
  with T[THEN conjunct2] obtain mx my where w: "worldToMap ?c (rd (7 / 5)) 0 = Inr (mx, my)"
    and "uint mx = std_round (6755399441055743 / 2 ^ 52)" "uint my = std_round 0"
    by blast
  then have "mx = 1" "my = 0" by (simp_all add: s' z word_uint_eq_iff)
  with w h1 h2 h3 s show ?thesis by simp
qed

text \<open>One coordinate of the round trip: the five steps \<open>w - origin\<close>, the division by the
  resolution, the rounding to a cell, the product with the resolution and the sum with the
  origin, each but the third a double operation.\<close>

lemma roundtrip_coordinate:
  assumes r: "0 < res" and le: "origin \<le> w"
    and d: "fsub w origin = Some d" and q: "fdiv d res = Some q"
    and a: "fmul (real_of_int (std_round q)) res = Some a" and w': "fadd origin a = Some w'"
  shows "\<bar>w' - w\<bar> \<le> res / 2 + (\<bar>w\<bar> + \<bar>origin\<bar> + res) / 2 ^ 50 + 1 / 2 ^ 1073"
proof -
  define z where "z = w - origin"
  define S where "S = \<bar>w\<bar> + \<bar>origin\<bar>"
  define t where "t = q * res"
  define g where "g = real_of_int (std_round q) * res"
  have z0: "0 \<le> z" "z \<le> S" "\<bar>origin\<bar> \<le> S" using le by (simp_all add: z_def S_def)
  have d0: "0 \<le> d" using fsub_nonneg[OF le d] .
  have q0: "0 \<le> q" using fdiv_nonneg[OF d0 r q] .
  have m0: "0 \<le> std_round q" and m1: "\<bar>real_of_int (std_round q) - q\<bar> \<le> 1 / 2"
    using std_round_bounds[OF q0] by (simp, linarith)
  have g0: "0 \<le> g" using m0 r by (simp add: g_def)
  have e1: "\<bar>d - z\<bar> \<le> z / 2 ^ 53 + 1 / 2 ^ 1075"
    using fsub_error[OF d] z0 by (simp add: z_def)
  have "\<bar>q - d / res\<bar> \<le> (d / res) / 2 ^ 53 + 1 / 2 ^ 1075"
    using fdiv_error[OF q] d0 r by simp
  then have "\<bar>q - d / res\<bar> * res \<le> ((d / res) / 2 ^ 53 + 1 / 2 ^ 1075) * res"
    using r by (intro mult_right_mono) simp_all
  moreover have "\<bar>q - d / res\<bar> * res = \<bar>t - d\<bar>"
  proof -
    have "(q - d / res) * res = t - d" using r by (simp add: t_def field_simps)
    then have "\<bar>t - d\<bar> = \<bar>q - d / res\<bar> * \<bar>res\<bar>" by (metis abs_mult)
    with r show ?thesis by simp
  qed
  moreover have "((d / res) / 2 ^ 53 + 1 / 2 ^ 1075) * res = d / 2 ^ 53 + res / 2 ^ 1075"
    using r by (simp add: field_simps)
  ultimately have e2: "\<bar>t - d\<bar> \<le> d / 2 ^ 53 + res / 2 ^ 1075" by simp
  have "\<bar>real_of_int (std_round q) - q\<bar> * res \<le> (1 / 2) * res"
    using m1 r by (intro mult_right_mono) simp_all
  moreover have "\<bar>real_of_int (std_round q) - q\<bar> * res = \<bar>g - t\<bar>"
  proof -
    have "(real_of_int (std_round q) - q) * res = g - t"
      by (simp add: t_def g_def left_diff_distrib)
    then have "\<bar>g - t\<bar> = \<bar>real_of_int (std_round q) - q\<bar> * \<bar>res\<bar>" by (metis abs_mult)
    with r show ?thesis by simp
  qed
  ultimately have e3: "\<bar>g - t\<bar> \<le> res / 2" by simp
  have e4: "\<bar>a - g\<bar> \<le> g / 2 ^ 53 + 1 / 2 ^ 1075"
    using fmul_error[OF a] g0 by (simp add: g_def)
  have e5: "\<bar>w' - (origin + a)\<bar> \<le> \<bar>origin + a\<bar> / 2 ^ 53 + 1 / 2 ^ 1075"
    using fadd_error[OF w'] .
  define \<eta> :: real where "\<eta> = 1 / 2 ^ 1075"
  define \<rho> where "\<rho> = res / 2 ^ 1075"
  have \<eta>0: "0 \<le> \<eta>" by (simp add: \<eta>_def)
  have \<rho>0: "0 \<le> \<rho>" "\<rho> \<le> res / 2 ^ 53"
    using r by (simp_all add: \<rho>_def field_simps)
  note e1' = e1[folded \<eta>_def] and e2' = e2[folded \<rho>_def] and e4' = e4[folded \<eta>_def]
    and e5' = e5[folded \<eta>_def]
  have wz: "w = origin + z" by (simp add: z_def)
  have oa: "\<bar>origin + a\<bar> \<le> S + \<bar>a\<bar>" using z0 by linarith
  have d_le: "d \<le> z + z / 2 ^ 53 + \<eta>" using e1' by linarith
  have t_le: "t \<le> d + d / 2 ^ 53 + \<rho>" using e2' by linarith
  have g_le: "g \<le> t + res / 2" using e3 by linarith
  have a_le: "\<bar>a\<bar> \<le> g + g / 2 ^ 53 + \<eta>" using e4' g0 by linarith
  have split: "\<bar>w' - w\<bar> \<le> \<bar>w' - (origin + a)\<bar> + \<bar>a - g\<bar> + \<bar>g - t\<bar> + \<bar>t - d\<bar> + \<bar>d - z\<bar>"
    unfolding wz by linarith
  have "\<bar>w' - w\<bar> \<le> res / 2 + (S + \<bar>a\<bar> + g + d + z) / 2 ^ 53 + \<rho> + 3 * \<eta>"
    using split e1' e2' e3 e4' e5' oa by (simp add: add_divide_distrib; linarith)
  moreover have "(S + \<bar>a\<bar> + g + d + z) / 2 ^ 53 + \<rho> + 3 * \<eta>
                 \<le> (S + res) / 2 ^ 50 + 4 * \<eta>"
    using z0 d0 g0 r d_le t_le g_le a_le \<eta>0 \<rho>0 by (simp add: add_divide_distrib; linarith)
  moreover have "4 * \<eta> = 1 / 2 ^ 1073" by (simp add: \<eta>_def)
  ultimately show ?thesis unfolding S_def by linarith
qed

lemma mapToWorld_Inr:
  "mapToWorld c mx my = Inr (wx, wy) \<longleftrightarrow>
     (\<exists>ax ay. fmul mx (resolution c) = Some ax \<and> fadd (origin_x c) ax = Some wx \<and>
              fmul my (resolution c) = Some ay \<and> fadd (origin_y c) ay = Some wy)"
  by (auto simp: mapToWorld_def split: option.splits)

text \<open>
  Claim C6, as the code has it. On a grid of positive resolution, a world point that
  \<open>worldToMap\<close> converts to a cell is reproduced by \<open>mapToWorld\<close> of that cell to within
  half the resolution and the rounding errors of the four double operations on the way,
  which add up to at most \<open>(\<bar>w\<bar> + \<bar>origin\<bar> + resolution) / 2\<^sup>5\<^sup>0 + 2\<^sup>-\<^sup>1\<^sup>0\<^sup>7\<^sup>3\<close> in each
  coordinate. Half the resolution alone is not a bound.
\<close>

theorem roundtrip_half_cell_up_to_rounding:
  assumes "0 < resolution c" "worldToMap c wx wy = Inr (mx, my)"
    and "mapToWorld c (real (unat mx)) (real (unat my)) = Inr (wx', wy')"
  shows "\<bar>wx' - wx\<bar> \<le> resolution c / 2 +
           (\<bar>wx\<bar> + \<bar>origin_x c\<bar> + resolution c) / 2 ^ 50 + 1 / 2 ^ 1073 \<and>
         \<bar>wy' - wy\<bar> \<le> resolution c / 2 +
           (\<bar>wy\<bar> + \<bar>origin_y c\<bar> + resolution c) / 2 ^ 50 + 1 / 2 ^ 1073"
proof -
  from worldToMap_Inr[OF assms(1,2)] obtain dx qx dy qy where
    ox: "origin_x c \<le> wx" and oy: "origin_y c \<le> wy"
    and x: "fsub wx (origin_x c) = Some dx" "fdiv dx (resolution c) = Some qx"
    and y: "fsub wy (origin_y c) = Some dy" "fdiv dy (resolution c) = Some qy"
    and mx: "uint mx = std_round qx" and my: "uint my = std_round qy"
    by blast
  have rx: "real (unat mx) = real_of_int (std_round qx)"
    using mx by (metis of_int_of_nat_eq uint_nat)
  have ry: "real (unat my) = real_of_int (std_round qy)"
    using my by (metis of_int_of_nat_eq uint_nat)
  from assms(3) obtain ax ay where
    ax: "fmul (real_of_int (std_round qx)) (resolution c) = Some ax"
      "fadd (origin_x c) ax = Some wx'"
    and ay: "fmul (real_of_int (std_round qy)) (resolution c) = Some ay"
      "fadd (origin_y c) ay = Some wy'"
    unfolding mapToWorld_Inr rx ry by blast
  from roundtrip_coordinate[OF assms(1) ox x ax] roundtrip_coordinate[OF assms(1) oy y ay]
  show ?thesis by simp
qed

text \<open>Resolution 0.05 (the nearest double) and the point \<open>(0.125, 0)\<close>: the quotient rounds
  to 2.5, the cell is 3, and the way back gives 0.15000000000000002.\<close>

theorem roundtrip_exceeds_half_cell:
  "worldToMap \<lparr>origin_x = 0, origin_y = 0, resolution = rd (1 / 20), size_x = 10, size_y = 10\<rparr>
     (1 / 8) 0 = Inr (3, 0) \<and>
   mapToWorld \<lparr>origin_x = 0, origin_y = 0, resolution = rd (1 / 20), size_x = 10, size_y = 10\<rparr>
     (real (unat (3 :: uint))) (real (unat (0 :: uint))) = Inr (1351079888211149 / 2 ^ 53, 0) \<and>
   \<not> \<bar>1351079888211149 / 2 ^ 53 - 1 / 8\<bar> \<le>
       resolution \<lparr>origin_x = 0, origin_y = 0, resolution = rd (1 / 20),
                   size_x = 10, size_y = 10\<rparr> / 2"
proof -
  have r: "rd (1 / 20) = 3602879701896397 / 2 ^ 56" by (simp add: float_eval)
  have cx: "cell_of (1 / 8) 0 (rd (1 / 20)) = Some 3"
    by (simp add: cell_of_def std_round_def static_cast_int_def float_eval)
  have cy: "cell_of 0 0 (rd (1 / 20)) = Some 0"
    by (simp add: cell_of_def std_round_def static_cast_int_def float_eval)
  have w: "worldToMap \<lparr>origin_x = 0, origin_y = 0, resolution = rd (1 / 20),
                         size_x = 10, size_y = 10\<rparr> (1 / 8) 0 = Inr (3, 0)"
    by (simp add: worldToMap_def cx cy)
  have m: "mapToWorld \<lparr>origin_x = 0, origin_y = 0, resolution = rd (1 / 20),
                         size_x = 10, size_y = 10\<rparr>
             (real (unat (3 :: uint))) (real (unat (0 :: uint))) =
           Inr (1351079888211149 / 2 ^ 53, 0)"
    by (simp add: mapToWorld_def float_eval)
  from w m show ?thesis by (simp add: r)
qed

text \<open>The same point and grid: the error is within half the resolution and the rounding
  errors.\<close>

theorem roundtrip_half_cell_up_to_rounding_witness:
  "0 < resolution \<lparr>origin_x = 0, origin_y = 0, resolution = rd (1 / 20),
                   size_x = 10, size_y = 10\<rparr> \<and>
   worldToMap \<lparr>origin_x = 0, origin_y = 0, resolution = rd (1 / 20), size_x = 10, size_y = 10\<rparr>
     (1 / 8) 0 = Inr (3, 0) \<and>
   mapToWorld \<lparr>origin_x = 0, origin_y = 0, resolution = rd (1 / 20), size_x = 10, size_y = 10\<rparr>
     (real (unat (3 :: uint))) (real (unat (0 :: uint))) = Inr (1351079888211149 / 2 ^ 53, 0) \<and>
   \<bar>1351079888211149 / 2 ^ 53 - 1 / 8 :: real\<bar> \<le>
     rd (1 / 20) / 2 + (\<bar>1 / 8\<bar> + \<bar>0\<bar> + rd (1 / 20)) / 2 ^ 50 + 1 / 2 ^ 1073"
proof -
  let ?c = "\<lparr>origin_x = 0, origin_y = 0, resolution = rd (1 / 20), size_x = 10, size_y = 10\<rparr>"
  have r: "rd (1 / 20) = 3602879701896397 / 2 ^ 56" by (simp add: float_eval)
  have h: "0 < resolution ?c" by (simp add: r)
  have cx: "cell_of (1 / 8) 0 (rd (1 / 20)) = Some 3"
    by (simp add: cell_of_def std_round_def static_cast_int_def float_eval)
  have cy: "cell_of 0 0 (rd (1 / 20)) = Some 0"
    by (simp add: cell_of_def std_round_def static_cast_int_def float_eval)
  have w: "worldToMap ?c (1 / 8) 0 = Inr (3, 0)"
    by (simp add: worldToMap_def cx cy)
  have m: "mapToWorld ?c (real (unat (3 :: uint))) (real (unat (0 :: uint))) =
           Inr (1351079888211149 / 2 ^ 53, 0)"
    by (simp add: mapToWorld_def float_eval)
  from roundtrip_half_cell_up_to_rounding [OF h w m] h w m show ?thesis by simp
qed

section \<open>PathExtractor: the step bound\<close>

lemma calcPath_bound_le_width: "calcPath_bound c \<le> 4 * uint (size_x c)"
proof -
  have "- (2 ^ 31) \<le> (0 :: int)" by simp
  also have "0 \<le> uint (size_x c * 4)" by simp
  finally have "signed_take_bit 31 (uint (size_x c * 4)) \<le> uint (size_x c * 4)"
    by (simp only: signed_take_bit_int_less_eq_self_iff)
  then have "sint (size_x c * 4) \<le> uint (size_x c * 4)"
    by (simp add: sint_uint)
  also have "uint (size_x c * 4) \<le> uint (size_x c) * 4"
    by (simp add: uint_word_ariths take_bit_eq_mod zmod_le_nonneg_dividend)
  finally show ?thesis by (simp add: calcPath_bound_def)
qed

lemma descend_Path:
  "descend at_source lower k cur = Path cells \<Longrightarrow>
     length cells \<le> k + 1 \<and> cells \<noteq> [] \<and> hd cells = cur \<and> at_source (last cells)"
proof (induction k arbitrary: cur cells)
  case 0
  then show ?case by (auto split: if_splits)
next
  case (Suc k)
  show ?case
  proof (cases "at_source cur")
    case True
    with Suc.prems show ?thesis by auto
  next
    case False
    with Suc.prems obtain nxt cs where n: "lower cur = Some nxt"
      and d: "descend at_source lower k nxt = Path cs" and c: "cells = cur # cs"
      by (auto split: option.splits extraction.splits)
    from Suc.IH[OF d] c show ?thesis by auto
  qed
qed

lemma traverse_length: "traverse f xs = Inr ys \<Longrightarrow> length ys = length xs"
  by (induction xs arbitrary: ys) (auto split: sum.splits)

lemma traverse_map: "traverse f (map g xs) = traverse (\<lambda>x. f (g x)) xs"
  by (induction xs) (auto split: sum.splits)

text \<open>
  Claim C7. The bound that \<open>getPlanFromPotential\<close> hands to the descent, the grid's
  width times 4, is at most 4 times the larger of the grid's two dimensions. The descent
  recurses on that bound, so it ends, and a path it yields has at most one cell more than
  the bound. When the goal is off the grid, when the bound is exceeded, and when a cell
  that is not the source has no lower neighbour, \<open>getPlanFromPotential\<close> returns false
  with an empty plan; when the descent arrives at the source it returns true with the
  poses of the path's cells, from the source to the goal.
\<close>

theorem getPlanFromPotential_bounded:
  "calcPath_bound c \<le> 4 * max (uint (size_x c)) (uint (size_y c)) \<and>
   (worldToMap c (point_x (position goal)) (point_y (position goal)) = Inl OutOfBounds \<longrightarrow>
      getPlanFromPotential c (calcPath at_source lower) goal = Inr (False, [])) \<and>
   (\<forall>seed. worldToMap c (point_x (position goal)) (point_y (position goal)) = Inr seed \<longrightarrow>
      (case descend at_source lower (nat (calcPath_bound c)) seed of
         Path cells \<Rightarrow>
           length cells \<le> nat (calcPath_bound c) + 1 \<and>
           getPlanFromPotential c (calcPath at_source lower) goal =
             (case traverse (\<lambda>(mx, my).
                       case mapToWorld c (real (unat mx)) (real (unat my)) of
                         Inl e \<Rightarrow> Inl e
                       | Inr (world_x, world_y) \<Rightarrow> Inr (waypoint world_x world_y))
                     (rev cells) of
                Inl e \<Rightarrow> Inl e
              | Inr plan \<Rightarrow> Inr (True, plan))
       | BoundExceeded \<Rightarrow> getPlanFromPotential c (calcPath at_source lower) goal = Inr (False, [])
       | NoPath \<Rightarrow> getPlanFromPotential c (calcPath at_source lower) goal = Inr (False, [])))"
proof (intro conjI allI impI)
  show "calcPath_bound c \<le> 4 * max (uint (size_x c)) (uint (size_y c))"
    using calcPath_bound_le_width[of c] by linarith
next
  assume "worldToMap c (point_x (position goal)) (point_y (position goal)) = Inl OutOfBounds"
  then show "getPlanFromPotential c (calcPath at_source lower) goal = Inr (False, [])"
    by (simp add: getPlanFromPotential_def)
next
  fix seed
  assume w: "worldToMap c (point_x (position goal)) (point_y (position goal)) = Inr seed"
  let ?f = "\<lambda>(mx :: uint, my :: uint).
              case mapToWorld c (real (unat mx)) (real (unat my)) of
                Inl e \<Rightarrow> Inl e
              | Inr (world_x, world_y) \<Rightarrow> Inr (waypoint world_x world_y)"
  show "case descend at_source lower (nat (calcPath_bound c)) seed of
         Path cells \<Rightarrow>
           length cells \<le> nat (calcPath_bound c) + 1 \<and>
           getPlanFromPotential c (calcPath at_source lower) goal =
             (case traverse ?f (rev cells) of
                Inl e \<Rightarrow> Inl e
              | Inr plan \<Rightarrow> Inr (True, plan))
       | BoundExceeded \<Rightarrow> getPlanFromPotential c (calcPath at_source lower) goal = Inr (False, [])
       | NoPath \<Rightarrow> getPlanFromPotential c (calcPath at_source lower) goal = Inr (False, [])"
  proof (cases "descend at_source lower (nat (calcPath_bound c)) seed")
    case (Path cells)
    from descend_Path[OF Path] have len: "length cells \<le> nat (calcPath_bound c) + 1"
      and ne: "cells \<noteq> []" by simp_all
    let ?F = "\<lambda>(px, py). case mapToWorld c px py of
                               Inl e \<Rightarrow> Inl e
                             | Inr (world_x, world_y) \<Rightarrow> Inr (waypoint world_x world_y)"
    let ?conv = "\<lambda>(mx :: uint, my :: uint). (real (unat mx), real (unat my))"
    have tr: "traverse ?F (rev (map ?conv cells)) = traverse ?f (rev cells)"
      unfolding rev_map traverse_map
      by (rule arg_cong[where f = "\<lambda>g. traverse g (rev cells)"]) (auto simp: fun_eq_iff)
    have cp: "calcPath at_source lower seed (calcPath_bound c) =
                (int (length cells), map ?conv cells)"
      by (simp add: calcPath_def Path)
    have "getPlanFromPotential c (calcPath at_source lower) goal =
            (case traverse ?F (rev (map ?conv cells)) of
               Inl e \<Rightarrow> Inl e
             | Inr plan \<Rightarrow> Inr (plan \<noteq> [], plan))"
      using ne by (simp add: getPlanFromPotential_def w cp)
    also have "\<dots> = (case traverse ?f (rev cells) of
               Inl e \<Rightarrow> Inl e
             | Inr plan \<Rightarrow> Inr (plan \<noteq> [], plan))"
      by (simp only: tr)
    also have "\<dots> = (case traverse ?f (rev cells) of
               Inl e \<Rightarrow> Inl e
             | Inr plan \<Rightarrow> Inr (True, plan))"
      using ne by (auto split: sum.splits dest: traverse_length)
    finally show ?thesis using len Path by simp
  next
    case BoundExceeded
    then show ?thesis by (simp add: getPlanFromPotential_def w calcPath_def)
  next
    case NoPath
    then show ?thesis by (simp add: getPlanFromPotential_def w calcPath_def)
  qed
qed

lemma descend_numeral:
  "descend at_source lower (numeral k) cur =
     (if at_source cur then Path [cur]
      else
        (case lower cur of
           None \<Rightarrow> NoPath
         | Some next \<Rightarrow>
            (case descend at_source lower (pred_numeral k) next of
               Path cells \<Rightarrow> Path (cur # cells)
             | BoundExceeded \<Rightarrow> BoundExceeded
             | NoPath \<Rightarrow> NoPath)))"
  by (simp add: numeral_eq_Suc)

text \<open>The goal \<open>(3, 1)\<close> on the 5 by 5 grid, the source at \<open>(1, 1)\<close> and a field that falls
  towards smaller \<open>x\<close>: the bound is 20, the descent takes two steps.\<close>

theorem getPlanFromPotential_bounded_witness:
  "worldToMap grid5 (point_x (position (waypoint 3 1))) (point_y (position (waypoint 3 1))) =
     Inr (3, 1) \<and>
   descend (\<lambda>cell. cell = (1, 1)) (\<lambda>(mx, my). if 1 < mx then Some (mx - 1, my) else None)
     (nat (calcPath_bound grid5)) (3, 1) = Path [(3, 1), (2, 1), (1, 1)] \<and>
   getPlanFromPotential grid5
     (calcPath (\<lambda>cell. cell = (1, 1)) (\<lambda>(mx, my). if 1 < mx then Some (mx - 1, my) else None))
     (waypoint 3 1) = Inr (True, [waypoint 1 1, waypoint 2 1, waypoint 3 1])"
proof -
  let ?s = "\<lambda>cell :: cell. cell = (1, 1)"
  let ?l = "\<lambda>(mx :: uint, my :: uint). if 1 < mx then Some (mx - 1, my) else None"
  have w: "worldToMap grid5 (point_x (position (waypoint 3 1)))
             (point_y (position (waypoint 3 1))) = Inr (3, 1)"
    by (simp add: worldToMap_def cell_of_def std_round_def static_cast_int_def waypoint_def
          grid5_def float_eval)
  have b: "nat (calcPath_bound grid5) = 20" by (simp add: calcPath_bound_def grid5_def)
  have d: "descend ?s ?l (nat (calcPath_bound grid5)) (3, 1) = Path [(3, 1), (2, 1), (1, 1)]"
    unfolding b by (simp add: descend_numeral)
  from getPlanFromPotential_bounded [of grid5 "waypoint 3 1" ?s ?l] w
  have "case descend ?s ?l (nat (calcPath_bound grid5)) (3, 1) of
         Path cells \<Rightarrow>
           length cells \<le> nat (calcPath_bound grid5) + 1 \<and>
           getPlanFromPotential grid5 (calcPath ?s ?l) (waypoint 3 1) =
             (case traverse (\<lambda>(mx, my).
                       case mapToWorld grid5 (real (unat mx)) (real (unat my)) of
                         Inl e \<Rightarrow> Inl e
                       | Inr (world_x, world_y) \<Rightarrow> Inr (waypoint world_x world_y))
                     (rev cells) of
                Inl e \<Rightarrow> Inl e
              | Inr plan \<Rightarrow> Inr (True, plan))
       | BoundExceeded \<Rightarrow> getPlanFromPotential grid5 (calcPath ?s ?l) (waypoint 3 1) = Inr (False, [])
       | NoPath \<Rightarrow> getPlanFromPotential grid5 (calcPath ?s ?l) (waypoint 3 1) = Inr (False, [])"
    by blast
  moreover have "mapToWorld grid5 1 1 = Inr (1, 1)" "mapToWorld grid5 2 1 = Inr (2, 1)"
    "mapToWorld grid5 3 1 = Inr (3, 1)"
    by (simp_all add: mapToWorld_def grid5_def float_eval)
  ultimately have "getPlanFromPotential grid5 (calcPath ?s ?l) (waypoint 3 1) =
               Inr (True, [waypoint 1 1, waypoint 2 1, waypoint 3 1])"
    unfolding d by simp
  with w d show ?thesis by simp
qed

text \<open>A grid 1 cell wide and 6 cells high: the bound is 4, four times the width, and a
  descent of five steps along the column is cut off, though it is within four times the
  larger dimension.\<close>

lemma calcPath_bound_of_a_column:
  "calcPath_bound \<lparr>origin_x = 0, origin_y = 0, resolution = 1, size_x = 1, size_y = 6\<rparr> = 4 \<and>
   descend (\<lambda>cell. cell = (0, 0)) (\<lambda>(mx, my). if 0 < my then Some (mx, my - 1) else None)
     4 (0, 5) = BoundExceeded \<and>
   getPlanFromPotential \<lparr>origin_x = 0, origin_y = 0, resolution = 1, size_x = 1, size_y = 6\<rparr>
     (calcPath (\<lambda>cell. cell = (0, 0)) (\<lambda>(mx, my). if 0 < my then Some (mx, my - 1) else None))
     (waypoint 0 5) = Inr (False, [])"
proof -
  let ?c = "\<lparr>origin_x = 0, origin_y = 0, resolution = 1, size_x = 1, size_y = 6\<rparr>"
  have b: "calcPath_bound ?c = 4" by (simp add: calcPath_bound_def)
  have d: "descend (\<lambda>cell :: cell. cell = (0, 0))
             (\<lambda>(mx :: uint, my :: uint). if 0 < my then Some (mx, my - 1) else None)
             4 (0, 5) = BoundExceeded"
    by (simp add: descend_numeral)
  have w: "worldToMap ?c (point_x (position (waypoint 0 5))) (point_y (position (waypoint 0 5))) =
             Inr (0, 5)"
    by (simp add: worldToMap_def cell_of_def std_round_def static_cast_int_def waypoint_def
          float_eval)
  show ?thesis
    by (simp add: b d getPlanFromPotential_def w calcPath_def)
qed

section \<open>Point queries: off-grid points and the neighbourhood scan\<close>

lemma replicate_25:
  "replicate 25 v = [v, v, v, v, v, v, v, v, v, v, v, v, v, v, v, v, v, v, v, v, v, v, v, v, v]"
  by (simp add: numeral_eq_Suc)

lemma getPointPotential_not_OutOfBounds: "getPointPotential c n p \<noteq> Inl OutOfBounds"
  by (auto simp: getPointPotential_def Let_def split: sum.splits error.splits prod.splits)

lemma worldToMap_not_NonFinite: "worldToMap c wx wy \<noteq> Inl NonFinite"
  by (auto simp: worldToMap_def Let_def split: option.splits)

lemma getPointPotential_not_NonFinite: "getPointPotential c n p \<noteq> Inl NonFinite"
  using worldToMap_not_NonFinite[of c "point_x p" "point_y p"]
  by (auto simp: getPointPotential_def Let_def split: sum.splits error.splits prod.splits)

lemma getPointPotential_cases:
  assumes "getPointPotential c n p \<noteq> Inl Undefined"
  obtains pot where "getPointPotential c n p = Inr pot"
  using assms getPointPotential_not_OutOfBounds[of c n p] getPointPotential_not_NonFinite[of c n p]
  by (cases "getPointPotential c n p") (metis error.exhaust, simp)

text \<open>
  Claim C10. For a world point that \<open>worldToMap\<close> rejects, \<open>getPointPotential\<close> returns
  the largest finite double without reading the potential array; that value is at least
  \<open>POT_HIGH\<close>, so the scan's test \<open>potential < POT_HIGH\<close> fails for it. The scan of
  tolerance 0 about such a point, a pair of doubles that the addition of the resolution
  moves upwards, whose only candidate is the point itself, answers false. And in a row of
  any scan, whatever its centre and tolerance, such a point within the row's range is
  passed over: the row's answer is the answer of the row continued at the next increment.
\<close>

theorem getPointPotential_off_grid:
  assumes "worldToMap c (point_x p) (point_y p) = Inl OutOfBounds"
  shows "getPointPotential c n p = Inr DBL_MAX \<and> POT_HIGH \<le> DBL_MAX \<and>
         \<not> DBL_MAX < POT_HIGH \<and>
         (is_double (point_x p) \<and> is_double (point_y p) \<and>
          (\<exists>x'. fadd (point_x p) (resolution c) = Some x' \<and> point_x p < x') \<and>
          (\<exists>y'. fadd (point_y p) (resolution c) = Some y' \<and> point_y p < y') \<longrightarrow>
          validPointPotential c n p 0 = Some (Inr False)) \<and>
         (\<forall>wp tol x_max. fadd (point_x wp) tol = Some x_max \<and> point_x p \<le> x_max \<longrightarrow>
            validPointPotential_x_loop c n wp tol p =
              (case fadd (point_x p) (resolution c) of
                 None \<Rightarrow> Some (Inl NonFinite)
               | Some x' \<Rightarrow> validPointPotential_x_loop c n wp tol (p\<lparr>point_x := x'\<rparr>)))"
proof -
  have g: "getPointPotential c n p = Inr DBL_MAX"
    using assms by (simp add: getPointPotential_def)
  have d: "\<not> DBL_MAX < POT_HIGH" by (simp add: POT_HIGH_def DBL_MAX_def)
  have v: "validPointPotential c n p 0 = Some (Inr False)"
    if dx: "is_double (point_x p)" and dy: "is_double (point_y p)"
      and x': "fadd (point_x p) (resolution c) = Some x'" "point_x p < x'"
      and y': "fadd (point_y p) (resolution c) = Some y'" "point_y p < y'" for x' y'
  proof -
    note z = is_double_sub_zero[OF dx] is_double_add_zero[OF dx]
      is_double_sub_zero[OF dy] is_double_add_zero[OF dy]
    have x2: "validPointPotential_x_loop c n p 0 (p\<lparr>point_x := x'\<rparr>) = Some (Inr False)"
      using x'(2) by (subst validPointPotential_x_loop.simps) (simp add: z)
    have x1: "validPointPotential_x_loop c n p 0 p = Some (Inr False)"
      apply (subst validPointPotential_x_loop.simps)
      using g d x'(1) x2 by (simp add: z)
    have y2: "validPointPotential_y_loop c n p 0 (p\<lparr>point_y := y'\<rparr>) = Some (Inr False)"
      using y'(2) by (subst validPointPotential_y_loop.simps) (simp add: z)
    have y1: "validPointPotential_y_loop c n p 0 p = Some (Inr False)"
      apply (subst validPointPotential_y_loop.simps)
      using x1 y'(1) y2 by (simp add: z)
    show ?thesis by (simp add: validPointPotential_def z y1)
  qed
  have s: "validPointPotential_x_loop c n wp tol p =
             (case fadd (point_x p) (resolution c) of
                None \<Rightarrow> Some (Inl NonFinite)
              | Some x' \<Rightarrow> validPointPotential_x_loop c n wp tol (p\<lparr>point_x := x'\<rparr>))"
    if "fadd (point_x wp) tol = Some x_max" "point_x p \<le> x_max" for wp tol x_max
    by (subst validPointPotential_x_loop.simps) (simp add: that g d)
  have h: "POT_HIGH \<le> DBL_MAX" by (simp add: POT_HIGH_def DBL_MAX_def)
  from g d h v s show ?thesis by blast
qed

text \<open>The point \<open>(12, 3)\<close> lies beyond a 10 by 10 grid of resolution 1.\<close>

theorem getPointPotential_off_grid_witness:
  "worldToMap \<lparr>origin_x = 0, origin_y = 0, resolution = 1, size_x = 10, size_y = 10\<rparr>
     (point_x \<lparr>point_x = 12, point_y = 3, point_z = 0\<rparr>)
     (point_y \<lparr>point_x = 12, point_y = 3, point_z = 0\<rparr>) = Inl OutOfBounds \<and>
   getPointPotential \<lparr>origin_x = 0, origin_y = 0, resolution = 1, size_x = 10, size_y = 10\<rparr>
     \<lparr>nx = 10, ny = 10, potarr = replicate 100 0\<rparr> \<lparr>point_x = 12, point_y = 3, point_z = 0\<rparr>
     = Inr DBL_MAX \<and>
   validPointPotential \<lparr>origin_x = 0, origin_y = 0, resolution = 1, size_x = 10, size_y = 10\<rparr>
     \<lparr>nx = 10, ny = 10, potarr = replicate 100 0\<rparr> \<lparr>point_x = 12, point_y = 3, point_z = 0\<rparr> 0
     = Some (Inr False)"
proof -
  let ?c = "\<lparr>origin_x = 0, origin_y = 0, resolution = 1, size_x = 10, size_y = 10\<rparr>"
  let ?p = "\<lparr>point_x = 12, point_y = 3, point_z = 0\<rparr>"
  have cx: "cell_of 12 0 1 = Some 12" "cell_of 3 0 1 = Some 3"
    by (simp_all add: cell_of_def std_round_def static_cast_int_def float_eval)
  have w: "worldToMap ?c (point_x ?p) (point_y ?p) = Inl OutOfBounds"
    by (simp add: worldToMap_def cx)
  have i: "is_double 12" "is_double 3" by (simp_all add: is_double_def float_eval)
  have a: "fadd 12 1 = Some 13" "fadd 3 1 = Some 4" by (simp_all add: float_eval)
  from getPointPotential_off_grid [OF w, of "\<lparr>nx = 10, ny = 10, potarr = replicate 100 0\<rparr>"] w i a
  show ?thesis by simp
qed

text \<open>One row of the scan. The columns are numbered by the increments of \<^verbatim>\<open>p.x\<close>; the row
  ends at the first column \<open>N\<close> whose coordinate lies beyond the bound.\<close>

lemma x_loop_scan:
  assumes x1: "fadd (point_x wp) tol = Some x1"
    and fin: "sweep (resolution c) x0 N = Some xN" "x1 < xN"
    and rng: "\<forall>i<N. \<exists>v. sweep (resolution c) x0 i = Some v \<and> v \<le> x1"
    and dfd: "\<forall>i<N. \<forall>v. sweep (resolution c) x0 i = Some v \<longrightarrow>
                getPointPotential c n (p\<lparr>point_x := v\<rparr>) \<noteq> Inl Undefined"
  shows "i \<le> N \<Longrightarrow> sweep (resolution c) x0 i = Some v \<Longrightarrow>
         validPointPotential_x_loop c n wp tol (p\<lparr>point_x := v\<rparr>) =
           Some (Inr (\<exists>k v'. i \<le> k \<and> k < N \<and> sweep (resolution c) x0 k = Some v' \<and>
                        (\<exists>pot. getPointPotential c n (p\<lparr>point_x := v'\<rparr>) = Inr pot \<and>
                               pot < POT_HIGH)))"
proof (induction m \<equiv> "N - i" arbitrary: i v)
  case 0
  then have "i = N" by simp
  with 0 fin have "x1 < v" by simp
  then have "validPointPotential_x_loop c n wp tol (p\<lparr>point_x := v\<rparr>) = Some (Inr False)"
    by (subst validPointPotential_x_loop.simps) (simp add: x1)
  moreover have "\<not> (\<exists>k v'. i \<le> k \<and> k < N \<and> sweep (resolution c) x0 k = Some v' \<and>
                        (\<exists>pot. getPointPotential c n (p\<lparr>point_x := v'\<rparr>) = Inr pot \<and>
                               pot < POT_HIGH))"
    using \<open>i = N\<close> by auto
  ultimately show ?case by simp
next
  case (Suc m)
  let ?B = "\<lambda>q. \<exists>pot. getPointPotential c n q = Inr pot \<and> pot < POT_HIGH"
  let ?Q = "\<lambda>k. \<exists>v'. k < N \<and> sweep (resolution c) x0 k = Some v' \<and> ?B (p\<lparr>point_x := v'\<rparr>)"
  from Suc.hyps(2) have iN: "i < N" by simp
  with rng Suc.prems(2) have le: "v \<le> x1" by auto
  from dfd iN Suc.prems(2) have "getPointPotential c n (p\<lparr>point_x := v\<rparr>) \<noteq> Inl Undefined"
    by blast
  then obtain pot where pot: "getPointPotential c n (p\<lparr>point_x := v\<rparr>) = Inr pot"
    by (rule getPointPotential_cases)
  show ?case
  proof (cases "pot < POT_HIGH")
    case True
    have "validPointPotential_x_loop c n wp tol (p\<lparr>point_x := v\<rparr>) = Some (Inr True)"
      using le pot True by (subst validPointPotential_x_loop.simps) (simp add: x1)
    moreover have "\<exists>k. i \<le> k \<and> ?Q k"
      using iN Suc.prems(2) pot True by (intro exI[of _ i]) auto
    ultimately show ?thesis by auto
  next
    case False
    have "\<exists>v''. sweep (resolution c) x0 (Suc i) = Some v''"
    proof (cases "Suc i < N")
      case True
      with rng show ?thesis by blast
    next
      case False
      with iN have "Suc i = N" by simp
      with fin show ?thesis by simp
    qed
    then obtain v'' where nxt: "sweep (resolution c) x0 (Suc i) = Some v''" ..
    then have add: "fadd v (resolution c) = Some v''" using Suc.prems(2) by simp
    have step: "validPointPotential_x_loop c n wp tol (p\<lparr>point_x := v\<rparr>) =
                validPointPotential_x_loop c n wp tol (p\<lparr>point_x := v''\<rparr>)"
      using le pot False add by (subst validPointPotential_x_loop.simps) (simp add: x1)
    have m: "m = N - Suc i" using Suc.hyps(2) by simp
    have S: "Suc i \<le> N" using iN by simp
    note IH = Suc.hyps(1)[OF m S nxt]
    have "(\<exists>k. i \<le> k \<and> ?Q k) \<longleftrightarrow> (\<exists>k. Suc i \<le> k \<and> ?Q k)"
    proof
      assume "\<exists>k. i \<le> k \<and> ?Q k"
      then obtain k where k: "i \<le> k" "?Q k" by blast
      have "\<not> ?Q i" using Suc.prems(2) pot False by auto
      with k have "k \<noteq> i" by blast
      with k show "\<exists>k. Suc i \<le> k \<and> ?Q k" by (intro exI[of _ k]) auto
    next
      assume "\<exists>k. Suc i \<le> k \<and> ?Q k"
      then obtain k where "Suc i \<le> k" "?Q k" by blast
      then show "\<exists>k. i \<le> k \<and> ?Q k" by (intro exI[of _ k]) auto
    qed
    then have "(\<exists>k v'. i \<le> k \<and> k < N \<and> sweep (resolution c) x0 k = Some v' \<and> ?B (p\<lparr>point_x := v'\<rparr>))
          \<longleftrightarrow> (\<exists>k v'. Suc i \<le> k \<and> k < N \<and> sweep (resolution c) x0 k = Some v' \<and>
                 ?B (p\<lparr>point_x := v'\<rparr>))"
      by blast
    with step IH show ?thesis by simp
  qed
qed

lemma point_update_swap:
  "p\<lparr>point_y := u, point_x := v\<rparr> = p\<lparr>point_x := v, point_y := u\<rparr>"
  by (cases p) simp

text \<open>The rows of the scan, numbered by the increments of \<^verbatim>\<open>p.y\<close>.\<close>

lemma y_loop_scan:
  assumes x0: "fsub (point_x wp) tol = Some x0" and x1: "fadd (point_x wp) tol = Some x1"
    and y1: "fadd (point_y wp) tol = Some y1"
    and xfin: "sweep (resolution c) x0 N = Some xN" "x1 < xN"
    and xrng: "\<forall>i<N. \<exists>v. sweep (resolution c) x0 i = Some v \<and> v \<le> x1"
    and yfin: "sweep (resolution c) y0 M = Some yM" "y1 < yM"
    and yrng: "\<forall>j<M. \<exists>u. sweep (resolution c) y0 j = Some u \<and> u \<le> y1"
    and dfd: "\<forall>i<N. \<forall>j<M. \<forall>v u. sweep (resolution c) x0 i = Some v \<longrightarrow>
                sweep (resolution c) y0 j = Some u \<longrightarrow>
                getPointPotential c n (p\<lparr>point_x := v, point_y := u\<rparr>) \<noteq> Inl Undefined"
  shows "j \<le> M \<Longrightarrow> sweep (resolution c) y0 j = Some u \<Longrightarrow>
         validPointPotential_y_loop c n wp tol (p\<lparr>point_y := u\<rparr>) =
           Some (Inr (\<exists>l k v' u'. j \<le> l \<and> l < M \<and> k < N \<and>
                        sweep (resolution c) x0 k = Some v' \<and>
                        sweep (resolution c) y0 l = Some u' \<and>
                        (\<exists>pot. getPointPotential c n (p\<lparr>point_x := v', point_y := u'\<rparr>) = Inr pot \<and>
                               pot < POT_HIGH)))"
proof (induction m \<equiv> "M - j" arbitrary: j u)
  case 0
  then have "j = M" by simp
  with 0 yfin have "y1 < u" by simp
  then have "validPointPotential_y_loop c n wp tol (p\<lparr>point_y := u\<rparr>) = Some (Inr False)"
    by (subst validPointPotential_y_loop.simps) (simp add: y1)
  moreover have "\<not> (\<exists>l k v' u'. j \<le> l \<and> l < M \<and> k < N \<and>
                        sweep (resolution c) x0 k = Some v' \<and>
                        sweep (resolution c) y0 l = Some u' \<and>
                        (\<exists>pot. getPointPotential c n (p\<lparr>point_x := v', point_y := u'\<rparr>) = Inr pot \<and>
                               pot < POT_HIGH))"
    using \<open>j = M\<close> by auto
  ultimately show ?case by simp
next
  case (Suc m)
  let ?B = "\<lambda>q. \<exists>pot. getPointPotential c n q = Inr pot \<and> pot < POT_HIGH"
  let ?R = "\<lambda>u'. \<exists>k v'. k < N \<and> sweep (resolution c) x0 k = Some v' \<and>
                    ?B (p\<lparr>point_x := v', point_y := u'\<rparr>)"
  let ?Q = "\<lambda>l. \<exists>u'. l < M \<and> sweep (resolution c) y0 l = Some u' \<and> ?R u'"
  from Suc.hyps(2) have jM: "j < M" by simp
  with yrng Suc.prems(2) have le: "u \<le> y1" by auto
  have d': "\<forall>i<N. \<forall>v. sweep (resolution c) x0 i = Some v \<longrightarrow>
              getPointPotential c n (p\<lparr>point_y := u, point_x := v\<rparr>) \<noteq> Inl Undefined"
    unfolding point_update_swap using dfd jM Suc.prems(2) by blast
  have s0: "sweep (resolution c) x0 0 = Some x0" by simp
  define R where "R \<longleftrightarrow> ?R u"
  from x_loop_scan[OF x1 xfin xrng d' le0 s0]
  have row: "validPointPotential_x_loop c n wp tol (p\<lparr>point_y := u, point_x := x0\<rparr>) =
               Some (Inr R)"
    unfolding point_update_swap R_def by simp
  show ?case
  proof (cases R)
    case True
    then have Ru: "?R u" unfolding R_def .
    have "validPointPotential_y_loop c n wp tol (p\<lparr>point_y := u\<rparr>) = Some (Inr True)"
      using le row True by (subst validPointPotential_y_loop.simps) (simp add: y1 x0)
    moreover have "\<exists>l. j \<le> l \<and> ?Q l"
      using jM Suc.prems(2) Ru by (intro exI[of _ j]) auto
    then have "\<exists>l k v' u'. j \<le> l \<and> l < M \<and> k < N \<and>
                        sweep (resolution c) x0 k = Some v' \<and>
                        sweep (resolution c) y0 l = Some u' \<and>
                        ?B (p\<lparr>point_x := v', point_y := u'\<rparr>)"
      by blast
    ultimately show ?thesis by simp
  next
    case False
    have "\<exists>u''. sweep (resolution c) y0 (Suc j) = Some u''"
    proof (cases "Suc j < M")
      case True
      with yrng show ?thesis by blast
    next
      case False
      with jM have "Suc j = M" by simp
      with yfin show ?thesis by simp
    qed
    then obtain u'' where nxt: "sweep (resolution c) y0 (Suc j) = Some u''" ..
    then have add: "fadd u (resolution c) = Some u''" using Suc.prems(2) by simp
    have step: "validPointPotential_y_loop c n wp tol (p\<lparr>point_y := u\<rparr>) =
                validPointPotential_y_loop c n wp tol (p\<lparr>point_y := u''\<rparr>)"
      using le row False add by (subst validPointPotential_y_loop.simps) (simp add: y1 x0)
    have m: "m = M - Suc j" using Suc.hyps(2) by simp
    have S: "Suc j \<le> M" using jM by simp
    note IH = Suc.hyps(1)[OF m S nxt]
    have "(\<exists>l. j \<le> l \<and> ?Q l) \<longleftrightarrow> (\<exists>l. Suc j \<le> l \<and> ?Q l)"
    proof
      assume "\<exists>l. j \<le> l \<and> ?Q l"
      then obtain l where l: "j \<le> l" "?Q l" by blast
      have "\<not> ?Q j" using Suc.prems(2) False unfolding R_def by auto
      with l have "l \<noteq> j" by blast
      with l show "\<exists>l. Suc j \<le> l \<and> ?Q l" by (intro exI[of _ l]) auto
    next
      assume "\<exists>l. Suc j \<le> l \<and> ?Q l"
      then obtain l where "Suc j \<le> l" "?Q l" by blast
      then show "\<exists>l. j \<le> l \<and> ?Q l" by (intro exI[of _ l]) auto
    qed
    then have "(\<exists>l k v' u'. j \<le> l \<and> l < M \<and> k < N \<and>
                        sweep (resolution c) x0 k = Some v' \<and>
                        sweep (resolution c) y0 l = Some u' \<and>
                        ?B (p\<lparr>point_x := v', point_y := u'\<rparr>))
          \<longleftrightarrow> (\<exists>l k v' u'. Suc j \<le> l \<and> l < M \<and> k < N \<and>
                        sweep (resolution c) x0 k = Some v' \<and>
                        sweep (resolution c) y0 l = Some u' \<and>
                        ?B (p\<lparr>point_x := v', point_y := u'\<rparr>))"
      by blast
    with step IH show ?thesis by simp
  qed
qed

text \<open>When is a candidate's potential defined? It is enough that the two casts of
  \<open>worldToMap\<close> are defined and that the planner's array matches the grid: \<^verbatim>\<open>nx\<close> is the
  grid's width and \<^verbatim>\<open>potarr\<close> holds a value for every cell.\<close>

lemma potarr_index_in_range:
  fixes mx my sx sy :: uint
  assumes "mx < sx" "my < sy" "unat sx * unat sy < 2 ^ 32"
  shows "unat (my * sx + mx) < unat sx * unat sy"
proof -
  have mx: "unat mx < unat sx" and my: "unat my < unat sy"
    using assms by (simp_all add: word_less_nat_alt)
  from my have "Suc (unat my) \<le> unat sy" by simp
  then have "Suc (unat my) * unat sx \<le> unat sy * unat sx" by (rule mult_le_mono1)
  with mx have lt: "unat my * unat sx + unat mx < unat sx * unat sy"
    by (simp add: mult.commute)
  with assms(3) have "unat my * unat sx + unat mx < 2 ^ 32" by simp
  then have "unat (my * sx + mx) = unat my * unat sx + unat mx"
    by (simp add: unat_word_ariths take_bit_nat_eq_self mod_mult_left_eq mod_add_left_eq)
  with lt show ?thesis by simp
qed

lemma getPointPotential_defined:
  assumes r: "0 < resolution c"
    and nx: "nx n = uint (size_x c)"
    and len: "unat (size_x c) * unat (size_y c) \<le> length (potarr n)"
    and sz: "unat (size_x c) * unat (size_y c) < 2 ^ 32"
    and cx: "cell_of (point_x p) (origin_x c) (resolution c) \<noteq> None"
    and cy: "cell_of (point_y p) (origin_y c) (resolution c) \<noteq> None"
  shows "getPointPotential c n p \<noteq> Inl Undefined"
proof (cases "worldToMap c (point_x p) (point_y p)")
  case (Inl e)
  have "worldToMap c (point_x p) (point_y p) \<noteq> Inl Undefined"
    using cx cy by (auto simp: worldToMap_def Let_def split: if_splits)
  with Inl worldToMap_not_NonFinite[of c "point_x p" "point_y p"]
  have "e = OutOfBounds" by (cases e) simp_all
  with Inl show ?thesis by (simp add: getPointPotential_def)
next
  case (Inr cell)
  obtain mx my where cell: "cell = (mx, my)" by (cases cell)
  from worldToMap_Inr[OF r Inr[unfolded cell]] have "mx < size_x c" "my < size_y c" by simp_all
  from potarr_index_in_range[OF this sz] len
  have "unat (my * size_x c + mx) < length (potarr n)" by simp
  then show ?thesis using Inr cell nx by (simp add: getPointPotential_def Let_def)
qed

lemma candidate_Some:
  assumes "fsub (point_x wp) tol = Some x0" "fsub (point_y wp) tol = Some y0"
  shows "candidate c wp tol i j = Some q \<longleftrightarrow>
           (\<exists>v u. sweep (resolution c) x0 i = Some v \<and> sweep (resolution c) y0 j = Some u \<and>
                  q = wp\<lparr>point_x := v, point_y := u\<rparr>)"
  using assms by (auto simp: candidate_def split: option.splits)

text \<open>
  Claim C9, as the code has it. The candidates of the scan are the points that the loops
  accumulate: column \<open>i\<close> has the coordinate reached by \<open>i\<close> double additions of the
  resolution from \<open>p.x - t\<close>, row \<open>j\<close> the one reached by \<open>j\<close> additions from \<open>p.y - t\<close>.
  When the accumulated coordinates pass the bounds, column \<open>N\<close> being the first beyond
  \<open>p.x + t\<close> and row \<open>M\<close> the first beyond \<open>p.y + t\<close>, and no candidate of the \<open>N\<close>
  columns and \<open>M\<close> rows makes \<open>getPointPotential\<close> undefined, \<open>validPointPotential\<close>
  returns, and it returns true exactly when some candidate has a potential strictly below
  \<open>POT_HIGH\<close>.
\<close>

theorem validPointPotential_iff:
  assumes "fsub (point_x wp) tol = Some x0" and "fadd (point_x wp) tol = Some x1"
    and "fsub (point_y wp) tol = Some y0" and "fadd (point_y wp) tol = Some y1"
    and "sweep (resolution c) x0 N = Some xN" and "x1 < xN"
    and "\<forall>i<N. \<exists>v. sweep (resolution c) x0 i = Some v \<and> v \<le> x1"
    and "sweep (resolution c) y0 M = Some yM" and "y1 < yM"
    and "\<forall>j<M. \<exists>u. sweep (resolution c) y0 j = Some u \<and> u \<le> y1"
    and "\<forall>i<N. \<forall>j<M. \<forall>q. candidate c wp tol i j = Some q \<longrightarrow>
           getPointPotential c n q \<noteq> Inl Undefined"
  shows "validPointPotential c n wp tol =
           Some (Inr (\<exists>i<N. \<exists>j<M. \<exists>q pot. candidate c wp tol i j = Some q \<and>
                        getPointPotential c n q = Inr pot \<and> pot < POT_HIGH))"
proof -
  note cs = candidate_Some[OF assms(1,3), of c]
  have dfd: "\<forall>i<N. \<forall>j<M. \<forall>v u. sweep (resolution c) x0 i = Some v \<longrightarrow>
                sweep (resolution c) y0 j = Some u \<longrightarrow>
                getPointPotential c n (wp\<lparr>point_x := v, point_y := u\<rparr>) \<noteq> Inl Undefined"
    using assms(11) unfolding cs by blast
  have s0: "sweep (resolution c) y0 0 = Some y0" by simp
  have "validPointPotential c n wp tol =
          validPointPotential_y_loop c n wp tol (wp\<lparr>point_y := y0\<rparr>)"
    by (simp add: validPointPotential_def assms(3))
  also note y_loop_scan[OF assms(1,2,4,5,6,7,8,9,10) dfd le0 s0]
  also have "(\<exists>l k v' u'. 0 \<le> l \<and> l < M \<and> k < N \<and>
                        sweep (resolution c) x0 k = Some v' \<and>
                        sweep (resolution c) y0 l = Some u' \<and>
                        (\<exists>pot. getPointPotential c n (wp\<lparr>point_x := v', point_y := u'\<rparr>) = Inr pot \<and>
                               pot < POT_HIGH)) \<longleftrightarrow>
             (\<exists>i<N. \<exists>j<M. \<exists>q pot. candidate c wp tol i j = Some q \<and>
                        getPointPotential c n q = Inr pot \<and> pot < POT_HIGH)"
    unfolding cs by blast
  finally show ?thesis .
qed

lemma sweep_numeral:
  "sweep res lo (numeral k) =
     (case sweep res lo (pred_numeral k) of None \<Rightarrow> None | Some v \<Rightarrow> fadd v res)"
  by (simp add: numeral_eq_Suc)

lemma less_3_cases: "i < 3 \<Longrightarrow> i = 0 \<or> i = 1 \<or> i = (2 :: nat)"
  by arith

text \<open>The goal \<open>(3, 1)\<close> with tolerance 1 over the second field: three columns 2, 3, 4 and
  three rows 0, 1, 2; the candidate \<open>(2, 1)\<close> has potential 50.\<close>

theorem validPointPotential_iff_witness:
  "fsub (point_x (position (waypoint 3 1))) 1 = Some 2 \<and>
   fadd (point_x (position (waypoint 3 1))) 1 = Some 4 \<and>
   fsub (point_y (position (waypoint 3 1))) 1 = Some 0 \<and>
   fadd (point_y (position (waypoint 3 1))) 1 = Some 2 \<and>
   sweep (resolution grid5) 2 3 = Some 5 \<and> sweep (resolution grid5) 0 3 = Some 3 \<and>
   validPointPotential grid5 field_goal_walled (position (waypoint 3 1)) 1 = Some (Inr True)"
proof -
  let ?wp = "position (waypoint 3 1)"
  have a: "fsub (point_x ?wp) 1 = Some 2" "fadd (point_x ?wp) 1 = Some 4"
    "fsub (point_y ?wp) 1 = Some 0" "fadd (point_y ?wp) 1 = Some 2"
    by (simp_all add: waypoint_def float_eval)
  have f: "fadd 0 1 = Some 1" "fadd 1 1 = Some 2" "fadd 2 1 = Some 3" "fadd 3 1 = Some 4"
    "fadd 4 1 = Some 5"
    by (simp_all add: float_eval)
  have r: "resolution grid5 = 1" by (simp add: grid5_def)
  have sx: "sweep 1 2 0 = Some 2" "sweep 1 2 1 = Some 3" "sweep 1 2 2 = Some 4"
    "sweep 1 2 3 = Some 5"
    by (simp_all add: sweep_numeral f)
  have sy: "sweep 1 0 0 = Some 0" "sweep 1 0 1 = Some 1" "sweep 1 0 2 = Some 2"
    "sweep 1 0 3 = Some 3"
    by (simp_all add: sweep_numeral f)
  have c: "cell_of 0 0 1 = Some 0" "cell_of 1 0 1 = Some 1" "cell_of 2 0 1 = Some 2"
    "cell_of 3 0 1 = Some 3" "cell_of 4 0 1 = Some 4"
    by (simp_all add: cell_of_def std_round_def static_cast_int_def float_eval)
  have xr: "\<forall>i<3. \<exists>v. sweep (resolution grid5) 2 i = Some v \<and> v \<le> 4"
    unfolding r using sx by (auto dest!: less_3_cases)
  have yr: "\<forall>j<3. \<exists>u. sweep (resolution grid5) 0 j = Some u \<and> u \<le> 2"
    unfolding r using sy by (auto dest!: less_3_cases)
  have cand: "\<And>i j q. candidate grid5 ?wp 1 i j = Some q \<longleftrightarrow>
           (\<exists>v u. sweep 1 2 i = Some v \<and> sweep 1 0 j = Some u \<and>
                  q = ?wp\<lparr>point_x := v, point_y := u\<rparr>)"
    using candidate_Some[OF a(1) a(3), of grid5] by (simp add: r)
  have d: "\<forall>i<3. \<forall>j<3. \<forall>q. candidate grid5 ?wp 1 i j = Some q \<longrightarrow>
             getPointPotential grid5 field_goal_walled q \<noteq> Inl Undefined"
    unfolding cand using sx sy
    by (auto dest!: less_3_cases
          simp: getPointPotential_def worldToMap_def c grid5_def field_goal_walled_def
            replicate_25 waypoint_def)
  have c01: "candidate grid5 ?wp 1 0 1 = Some (?wp\<lparr>point_x := 2, point_y := 1\<rparr>)"
    unfolding cand using sx sy by simp
  have g: "getPointPotential grid5 field_goal_walled (?wp\<lparr>point_x := 2, point_y := 1\<rparr>) = Inr 50"
    by (simp add: getPointPotential_def worldToMap_def c grid5_def field_goal_walled_def
            replicate_25 waypoint_def)
  have h: "(50 :: real) < POT_HIGH" by (simp add: POT_HIGH_def)
  have e: "\<exists>i<3. \<exists>j<3. \<exists>q pot. candidate grid5 ?wp 1 i j = Some q \<and>
             getPointPotential grid5 field_goal_walled q = Inr pot \<and> pot < POT_HIGH"
    apply (rule exI[of _ 0])
    apply (rule conjI)
     apply simp
    apply (rule exI[of _ 1])
    apply (rule conjI)
     apply simp
    using c01 g h by blast
  have sx3: "sweep (resolution grid5) 2 3 = Some 5" and sy3: "sweep (resolution grid5) 0 3 = Some 3"
    using sx sy by (simp_all add: r)
  from validPointPotential_iff [OF a(1) a(2) a(3) a(4) sx3 _ xr sy3 _ yr d] e
  have "validPointPotential grid5 field_goal_walled ?wp 1 = Some (Inr True)" by simp
  with a sx3 sy3 show ?thesis by simp
qed

text \<open>A row whose increment is absorbed at a candidate that is not below \<open>POT_HIGH\<close> never
  ends: the loop comes back to the same point.\<close>

lemma x_loop_absorbed:
  assumes m: "fadd (point_x wp) tol = Some x_max" and le: "point_x p \<le> x_max"
    and g: "getPointPotential c n p = Inr pot" and h: "\<not> pot < POT_HIGH"
    and a: "fadd (point_x p) (resolution c) = Some (point_x p)"
  shows "validPointPotential_x_loop c n wp tol p = None"
proof (rule ccontr)
  assume "validPointPotential_x_loop c n wp tol p \<noteq> None"
  then obtain y where y: "validPointPotential_x_loop c n wp tol p = Some y" by auto
  have "\<not> (c = c \<and> n = n \<and> wp = wp \<and> tol = tol \<and> p = p)"
    apply (rule validPointPotential_x_loop.raw_induct
        [where P = "\<lambda>c' n' wp' tol' p' y'. \<not> (c' = c \<and> n' = n \<and> wp' = wp \<and> tol' = tol \<and> p' = p)",
         OF _ y])
    apply (rule notI)
    apply (elim conjE)
    apply (simp add: m le g h a)
    apply blast
    done
  then show False by simp
qed

text \<open>Origin \<open>(2\<^sup>5\<^sup>3, 0)\<close>, resolution one quarter, the point \<open>(2\<^sup>5\<^sup>3, 0)\<close> and the tolerance one
  quarter. The sweep of \<^verbatim>\<open>p.x\<close> starts at \<open>2\<^sup>5\<^sup>3\<close>, which is also the bound, and the
  addition of the resolution leaves \<open>2\<^sup>5\<^sup>3\<close> unchanged. The first row, at \<open>y = -0.25\<close>, is
  off the grid, so its loop never ends; the second row, never begun, holds the point itself,
  whose potential is 0.\<close>

theorem validPointPotential_never_returns:
  "fadd 9007199254740992 (1 / 4) = Some 9007199254740992 \<and>
   candidate \<lparr>origin_x = 9007199254740992, origin_y = 0, resolution = 1 / 4,
               size_x = 4, size_y = 4\<rparr>
     \<lparr>point_x = 9007199254740992, point_y = 0, point_z = 0\<rparr> (1 / 4) 0 1 =
     Some \<lparr>point_x = 9007199254740992, point_y = 0, point_z = 0\<rparr> \<and>
   getPointPotential \<lparr>origin_x = 9007199254740992, origin_y = 0, resolution = 1 / 4,
                       size_x = 4, size_y = 4\<rparr>
     \<lparr>nx = 4, ny = 4, potarr = (replicate 16 POT_HIGH)[0 := 0]\<rparr>
     \<lparr>point_x = 9007199254740992, point_y = 0, point_z = 0\<rparr> = Inr 0 \<and>
   (0 :: real) < POT_HIGH \<and>
   validPointPotential \<lparr>origin_x = 9007199254740992, origin_y = 0, resolution = 1 / 4,
                         size_x = 4, size_y = 4\<rparr>
     \<lparr>nx = 4, ny = 4, potarr = (replicate 16 POT_HIGH)[0 := 0]\<rparr>
     \<lparr>point_x = 9007199254740992, point_y = 0, point_z = 0\<rparr> (1 / 4) = None \<and>
   validPointPotential \<lparr>origin_x = 9007199254740992, origin_y = 0, resolution = 1 / 4,
                         size_x = 4, size_y = 4\<rparr>
     \<lparr>nx = 4, ny = 4, potarr = (replicate 16 POT_HIGH)[0 := 0]\<rparr>
     \<lparr>point_x = 9007199254740992, point_y = 0, point_z = 0\<rparr> (1 / 4) \<noteq> Some (Inr True)"
proof -
  let ?c = "\<lparr>origin_x = 9007199254740992, origin_y = 0, resolution = 1 / 4,
             size_x = 4, size_y = 4\<rparr>"
  let ?n = "\<lparr>nx = 4, ny = 4, potarr = (replicate 16 POT_HIGH)[0 := 0]\<rparr>"
  let ?p = "\<lparr>point_x = 9007199254740992, point_y = 0, point_z = 0\<rparr>"
  let ?q = "\<lparr>point_x = 9007199254740992, point_y = - (1 / 4), point_z = 0\<rparr>"
  have f: "fadd 9007199254740992 (1 / 4) = Some 9007199254740992"
    "fsub 9007199254740992 (1 / 4) = Some 9007199254740992"
    "fsub 0 (1 / 4) = Some (- (1 / 4))" "fadd (- (1 / 4)) (1 / 4) = Some 0"
    "fadd 0 (1 / 4) = Some (1 / 4)"
    by (simp_all add: float_eval)
  have cl: "cell_of 9007199254740992 9007199254740992 (1 / 4) = Some 0"
    "cell_of 0 0 (1 / 4) = Some 0"
    by (simp_all add: cell_of_def std_round_def static_cast_int_def float_eval)
  have k: "candidate ?c ?p (1 / 4) 0 1 = Some ?p"
    by (simp add: candidate_def f)
  have r: "replicate 16 x = [x, x, x, x, x, x, x, x, x, x, x, x, x, x, x, x]" for x :: real
    by (simp add: numeral_eq_Suc)
  have g: "getPointPotential ?c ?n ?p = Inr 0"
    by (simp add: getPointPotential_def worldToMap_def cl r)
  have gq: "getPointPotential ?c ?n ?q = Inr DBL_MAX"
    by (simp add: getPointPotential_def worldToMap_def)
  have d: "\<not> DBL_MAX < POT_HIGH" by (simp add: POT_HIGH_def DBL_MAX_def)
  have x: "validPointPotential_x_loop ?c ?n ?p (1 / 4) ?q = None"
    by (rule x_loop_absorbed[where x_max = 9007199254740992 and pot = DBL_MAX])
       (simp_all add: f gq d)
  have y: "validPointPotential_y_loop ?c ?n ?p (1 / 4) ?q = None"
    by (subst validPointPotential_y_loop.simps) (simp add: f x)
  have v: "validPointPotential ?c ?n ?p (1 / 4) = None"
    by (simp add: validPointPotential_def f y)
  have h: "(0 :: real) < POT_HIGH" by (simp add: POT_HIGH_def)
  from f(1) k g h v show ?thesis by simp
qed

text \<open>An increment below half a unit in the last place is absorbed: from \<open>2^53\<close> the sweep
  in steps of one quarter never moves, and never leaves any range that holds \<open>2^53\<close>.\<close>

lemma sweep_absorbed: "sweep (1 / 4) 9007199254740992 i = Some 9007199254740992"
proof (induction i)
  case 0
  show ?case by simp
next
  case (Suc i)
  have "fadd 9007199254740992 (1 / 4) = Some 9007199254740992" by (simp add: float_eval)
  with Suc show ?case by simp
qed

text \<open>The accumulated coordinates drift. Origin 0.45, resolution 0.1, tolerance 0.1 and
  the point \<open>(0.45, 0.45)\<close>, all as doubles: the sweep from 0.35 visits
  0.44999999999999996, left of the origin, and then 0.5499999999999999, in cell 1, so the
  cell 0 that holds the point itself is not among the candidates.\<close>

lemma sweep_drift:
  "rd (9 / 20) = 8106479329266893 / 18014398509481984 \<and>
   rd (1 / 10) = 3602879701896397 / 36028797018963968 \<and>
   fsub (rd (9 / 20)) (rd (1 / 10)) = Some (3152519739159347 / 9007199254740992) \<and>
   fadd (rd (9 / 20)) (rd (1 / 10)) = Some (2476979795053773 / 4503599627370496) \<and>
   sweep (rd (1 / 10)) (3152519739159347 / 9007199254740992) 1 =
     Some (2026619832316723 / 4503599627370496) \<and>
   2026619832316723 / 4503599627370496 < rd (9 / 20) \<and>
   sweep (rd (1 / 10)) (3152519739159347 / 9007199254740992) 2 =
     Some (4953959590107545 / 9007199254740992) \<and>
   cell_of (4953959590107545 / 9007199254740992) (rd (9 / 20)) (rd (1 / 10)) = Some 1 \<and>
   sweep (rd (1 / 10)) (3152519739159347 / 9007199254740992) 3 =
     Some (1463669878895411 / 2251799813685248) \<and>
   2476979795053773 / 4503599627370496 < (1463669878895411 / 2251799813685248 :: real)"
proof -
  have o: "rd (9 / 20) = 8106479329266893 / 18014398509481984" by (simp add: float_eval)
  have r: "rd (1 / 10) = 3602879701896397 / 36028797018963968" by (simp add: float_eval)
  have a: "fsub (8106479329266893 / 18014398509481984) (3602879701896397 / 36028797018963968) =
             Some (3152519739159347 / 9007199254740992)"
    by (simp add: float_eval)
  have b: "fadd (8106479329266893 / 18014398509481984) (3602879701896397 / 36028797018963968) =
             Some (2476979795053773 / 4503599627370496)"
    by (simp add: float_eval)
  have s1: "fadd (3152519739159347 / 9007199254740992) (3602879701896397 / 36028797018963968) =
             Some (2026619832316723 / 4503599627370496)"
    by (simp add: float_eval)
  have s2: "fadd (2026619832316723 / 4503599627370496) (3602879701896397 / 36028797018963968) =
             Some (4953959590107545 / 9007199254740992)"
    by (simp add: float_eval)
  have s3: "fadd (4953959590107545 / 9007199254740992) (3602879701896397 / 36028797018963968) =
             Some (1463669878895411 / 2251799813685248)"
    by (simp add: float_eval)
  have c: "cell_of (4953959590107545 / 9007199254740992) (8106479329266893 / 18014398509481984)
             (3602879701896397 / 36028797018963968) = Some 1"
    by (simp add: cell_of_def std_round_def static_cast_int_def float_eval)
  show ?thesis
    unfolding o r by (simp add: sweep_numeral a b s1 s2 s3 c)
qed

text \<open>On that grid, 3 cells by 3, with a field that is low in cell \<open>(0, 0)\<close> only: the
  point \<open>(0.45, 0.45)\<close> has potential 0, and the scan of tolerance 0.1 about it answers
  false.\<close>

lemma validPointPotential_drift:
  "getPointPotential
     \<lparr>origin_x = rd (9 / 20), origin_y = rd (9 / 20), resolution = rd (1 / 10),
        size_x = 3, size_y = 3\<rparr>
     \<lparr>nx = 3, ny = 3, potarr = (replicate 9 POT_HIGH)[0 := 0]\<rparr>
     \<lparr>point_x = rd (9 / 20), point_y = rd (9 / 20), point_z = 0\<rparr> = Inr 0 \<and>
   validPointPotential
     \<lparr>origin_x = rd (9 / 20), origin_y = rd (9 / 20), resolution = rd (1 / 10),
        size_x = 3, size_y = 3\<rparr>
     \<lparr>nx = 3, ny = 3, potarr = (replicate 9 POT_HIGH)[0 := 0]\<rparr>
     \<lparr>point_x = rd (9 / 20), point_y = rd (9 / 20), point_z = 0\<rparr> (rd (1 / 10)) =
     Some (Inr False)"
proof -
  have o: "rd (9 / 20) = 8106479329266893 / 18014398509481984" by (simp add: float_eval)
  have r: "rd (1 / 10) = 3602879701896397 / 36028797018963968" by (simp add: float_eval)
  have a: "fsub (8106479329266893 / 18014398509481984) (3602879701896397 / 36028797018963968) =
             Some (3152519739159347 / 9007199254740992)"
    by (simp add: float_eval)
  have b: "fadd (8106479329266893 / 18014398509481984) (3602879701896397 / 36028797018963968) =
             Some (2476979795053773 / 4503599627370496)"
    by (simp add: float_eval)
  have s1: "fadd (3152519739159347 / 9007199254740992) (3602879701896397 / 36028797018963968) =
             Some (2026619832316723 / 4503599627370496)"
    by (simp add: float_eval)
  have s2: "fadd (2026619832316723 / 4503599627370496) (3602879701896397 / 36028797018963968) =
             Some (4953959590107545 / 9007199254740992)"
    by (simp add: float_eval)
  have s3: "fadd (4953959590107545 / 9007199254740992) (3602879701896397 / 36028797018963968) =
             Some (1463669878895411 / 2251799813685248)"
    by (simp add: float_eval)
  have c: "cell_of (4953959590107545 / 9007199254740992) (8106479329266893 / 18014398509481984)
             (3602879701896397 / 36028797018963968) = Some 1"
    "cell_of (8106479329266893 / 18014398509481984) (8106479329266893 / 18014398509481984)
             (3602879701896397 / 36028797018963968) = Some 0"
    by (simp_all add: cell_of_def std_round_def static_cast_int_def float_eval)
  have p: "replicate 9 x = [x, x, x, x, x, x, x, x, x]" for x :: real
    by (simp add: numeral_eq_Suc)
  have g: "getPointPotential
     \<lparr>origin_x = rd (9 / 20), origin_y = rd (9 / 20), resolution = rd (1 / 10),
        size_x = 3, size_y = 3\<rparr>
     \<lparr>nx = 3, ny = 3, potarr = (replicate 9 POT_HIGH)[0 := 0]\<rparr>
     \<lparr>point_x = rd (9 / 20), point_y = rd (9 / 20), point_z = 0\<rparr> = Inr 0"
    unfolding o r by (simp add: getPointPotential_def worldToMap_def c p)
  have v: "validPointPotential
     \<lparr>origin_x = rd (9 / 20), origin_y = rd (9 / 20), resolution = rd (1 / 10),
        size_x = 3, size_y = 3\<rparr>
     \<lparr>nx = 3, ny = 3, potarr = (replicate 9 POT_HIGH)[0 := 0]\<rparr>
     \<lparr>point_x = rd (9 / 20), point_y = rd (9 / 20), point_z = 0\<rparr> (rd (1 / 10)) =
     Some (Inr False)"
    unfolding o r
    by (simp add: validPointPotential_def validPointPotential_y_loop.simps
          validPointPotential_x_loop.simps getPointPotential_def worldToMap_def
          a b s1 s2 s3 c p POT_HIGH_def DBL_MAX_def)
  from g v show ?thesis by simp
qed

section \<open>PlannerFacade: what makePlan returns\<close>

text \<open>Once start and goal are on the grid, \<open>makePlan\<close> has no failure return left: if it
  returns a result, it returns true with a plan that ends at the goal pose, and the
  potential field it has just computed plays no part.\<close>

lemma makePlan_on_grid:
  assumes "worldToMap c (point_x (position start)) (point_y (position start)) = Inr map_start"
    and "worldToMap c (point_x (position goal)) (point_y (position goal)) = Inr map_goal"
    and "makePlan c setCostmap calcNavFn n start goal tolerance = Inr (ok, plan, n')"
  shows "ok \<and> plan \<noteq> [] \<and> last plan = goal \<and> n' = calcNavFn (setCostmap n) map_goal map_start"
  using assms by (auto simp: makePlan_def Let_def split: option.splits sum.splits)

text \<open>The double operations of the two requests below, all exact.\<close>

lemma small_doubles:
  "fsub 1 1 = Some 0" "fsub 3 1 = Some 2" "fadd 0 1 = Some 1" "fadd 1 1 = Some 2"
  "fadd 2 1 = Some 3" "fadd 3 1 = Some 4" "fadd 4 1 = Some 5" "fmul 2 2 = Some 4"
  "fmul 0 0 = Some 0" "fadd 4 0 = Some 4" "fdiv 2 1 = Some 2" "fdiv 2 2 = Some 1"
  "fdiv 0 2 = Some 0" "fmul 0 1 = Some 0" "fmul 1 1 = Some 1" "fmul 1 0 = Some 0"
  "fadd 1 0 = Some 1" "double_of_size_t 0 = 0" "double_of_size_t (Suc 0) = 1"
  "double_of_size_t 2 = 2"
  by (simp_all add: float_eval double_of_size_t_def)

lemma fsqrt_4: "fsqrt 4 = Some 2"
proof -
  have "sqrt 4 = 2" by simp
  then show ?thesis by (simp add: fsqrt_def) (simp add: float_eval)
qed

lemma small_cells:
  "cell_of 0 0 1 = Some 0" "cell_of 1 0 1 = Some 1" "cell_of 2 0 1 = Some 2"
  "cell_of 3 0 1 = Some 3" "cell_of 4 0 1 = Some 4"
  by (simp_all add: cell_of_def std_round_def static_cast_int_def float_eval)

text \<open>Start \<open>(1, 1)\<close>, goal \<open>(3, 1)\<close>, resolution 1: the distance is 2, two points are
  interpolated, and the plan is the straight line, whatever the propagation leaves.\<close>

lemma straight_line_1_3:
  "makePlan grid5 (\<lambda>n. n) (\<lambda>n src dst. f) field_start_only (waypoint 1 1) (waypoint 3 1) 1 =
     Inr (True, [waypoint 1 1, waypoint 2 1, waypoint 3 1], f)"
proof -
  have k: "number_of_points grid5 (waypoint 1 1) (waypoint 3 1) = Some 2"
    by (simp add: number_of_points_def waypoint_def grid5_def small_doubles fsqrt_4
          static_cast_size_t_def)
  have i: "interpolate 1 3 2 0 = Some 1" "interpolate 1 3 2 (Suc 0) = Some 2"
    "interpolate 1 1 2 0 = Some 1" "interpolate 1 1 2 (Suc 0) = Some 1"
    by (simp_all add: interpolate_def small_doubles)
  have w: "worldToMap grid5 1 1 = Inr (1, 1)" "worldToMap grid5 3 1 = Inr (3, 1)"
    by (simp_all add: worldToMap_def small_cells grid5_def)
  have u: "[0..<2] = [0, Suc 0]" by (simp add: upt_conv_Cons)
  have p: "point_x (position (waypoint a b)) = a" "point_y (position (waypoint a b)) = b" for a b
    by (simp_all add: waypoint_def)
  show ?thesis
    by (simp add: makePlan_def p w k u i Let_def)
qed

text \<open>
  Claim C2, evaluated on the code. Start \<open>(1, 1)\<close>, goal \<open>(3, 1)\<close>, tolerance 1, and a
  propagation that reaches the start cell only: no candidate within the tolerance of the
  goal has a potential below \<open>POT_HIGH\<close>, and \<open>makePlan\<close> still returns true with the
  three waypoints of the straight line.
\<close>

theorem makePlan_ignores_unreachable_goal:
  "validPointPotential grid5 field_start_only (position (waypoint 3 1)) 1 = Some (Inr False) \<and>
   makePlan grid5 (\<lambda>n. n) (\<lambda>n src dst. field_start_only) field_start_only
     (waypoint 1 1) (waypoint 3 1) 1 =
   Inr (True, [waypoint 1 1, waypoint 2 1, waypoint 3 1], field_start_only)"
proof -
  have v: "validPointPotential grid5 field_start_only (position (waypoint 3 1)) 1 = Some (Inr False)"
    by (simp add: validPointPotential_def validPointPotential_y_loop.simps
      validPointPotential_x_loop.simps getPointPotential_def worldToMap_def small_doubles
      small_cells waypoint_def grid5_def field_start_only_def replicate_25 POT_HIGH_def)
  from v straight_line_1_3 [of field_start_only] show ?thesis by simp
qed

text \<open>
  Claim C1, evaluated on the code. Same request, and a propagation that leaves the goal
  cell \<open>(3, 1)\<close> at \<open>POT_HIGH\<close> and reaches its neighbour \<open>(2, 1)\<close>, a candidate of the
  tolerance neighbourhood: \<open>makePlan\<close> returns the straight line that ends at the
  unreachable nominal goal.
\<close>

theorem makePlan_ignores_tolerance_search:
  "getPointPotential grid5 field_goal_walled (position (waypoint 3 1)) = Inr POT_HIGH \<and>
   getPointPotential grid5 field_goal_walled (position (waypoint 2 1)) = Inr 50 \<and>
   50 < POT_HIGH \<and>
   validPointPotential grid5 field_goal_walled (position (waypoint 3 1)) 1 = Some (Inr True) \<and>
   makePlan grid5 (\<lambda>n. n) (\<lambda>n src dst. field_goal_walled) field_start_only
     (waypoint 1 1) (waypoint 3 1) 1 =
   Inr (True, [waypoint 1 1, waypoint 2 1, waypoint 3 1], field_goal_walled)"
proof -
  have g1: "getPointPotential grid5 field_goal_walled (position (waypoint 3 1)) = Inr POT_HIGH"
    by (simp add: getPointPotential_def worldToMap_def small_cells
      waypoint_def grid5_def field_goal_walled_def replicate_25)
  have g2: "getPointPotential grid5 field_goal_walled (position (waypoint 2 1)) = Inr 50"
    by (simp add: getPointPotential_def worldToMap_def small_cells
      waypoint_def grid5_def field_goal_walled_def replicate_25)
  have v: "validPointPotential grid5 field_goal_walled (position (waypoint 3 1)) 1 = Some (Inr True)"
    by (simp add: validPointPotential_def validPointPotential_y_loop.simps
      validPointPotential_x_loop.simps getPointPotential_def worldToMap_def small_doubles
      small_cells waypoint_def grid5_def field_goal_walled_def replicate_25 POT_HIGH_def)
  from g1 g2 v straight_line_1_3 [of field_goal_walled] show ?thesis by (simp add: POT_HIGH_def)
qed

text \<open>A point that \<open>worldToMap\<close> sends to the cell \<open>std_round qa\<close> lies, relative to the
  origin, within a small fraction of a cell of \<open>resolution * qa\<close>.\<close>

lemma cell_anchor:
  assumes r: "1 / 2 ^ 500 \<le> r" and le: "origin \<le> a"
    and d: "fsub a origin = Some da" and q: "fdiv da r = Some qa"
    and m: "qa \<le> 2 ^ 32 + 1 / 2"
  shows "\<bar>(a - origin) - r * qa\<bar> \<le> r / 2 ^ 17"
proof -
  define \<eta> :: real where "\<eta> = 1 / 2 ^ 1075"
  from r have r0: "0 < r" by (rule less_le_trans[rotated]) simp
  have "\<eta> \<le> (1 / 2 ^ 500) / 2 ^ 60" by (simp add: \<eta>_def)
  also have "\<dots> \<le> r / 2 ^ 60" using r by (rule divide_right_mono) simp
  finally have \<eta>r: "\<eta> \<le> r / 2 ^ 60" .
  have \<eta>1: "\<eta> \<le> 1 / 2 ^ 60" by (simp add: \<eta>_def)
  define z where "z = da / r"
  define w where "w = a - origin"
  have da0: "0 \<le> da" using fsub_nonneg[OF le d] .
  have z0: "0 \<le> z" using da0 r0 by (simp add: z_def)
  have w0: "0 \<le> w" using le by (simp add: w_def)
  have daz: "da = r * z" using r0 by (simp add: z_def)
  have e1: "\<bar>qa - z\<bar> \<le> z / 2 ^ 53 + \<eta>"
    using fdiv_error[OF q] z0 by (simp add: z_def \<eta>_def)
  have e2: "\<bar>da - w\<bar> \<le> w / 2 ^ 53 + \<eta>"
    using fsub_error[OF d] w0 by (simp add: w_def \<eta>_def)
  have zb: "z \<le> 2 ^ 33" using e1 m \<eta>1 z0 by (simp; linarith)
  then have "\<bar>qa - z\<bar> \<le> 1 / 2 ^ 19" using e1 \<eta>1 by (simp; linarith)
  then have "r * \<bar>qa - z\<bar> \<le> r * (1 / 2 ^ 19)" using r0 by (simp add: mult_left_mono)
  moreover have "r * \<bar>qa - z\<bar> = \<bar>r * qa - da\<bar>"
    using r0 by (simp add: daz abs_mult right_diff_distrib[symmetric])
  ultimately have "\<bar>r * qa - da\<bar> \<le> r / 2 ^ 19" by simp
  moreover define A where "A = r * qa"
  ultimately have t1: "\<bar>A - da\<bar> \<le> r / 2 ^ 19" by simp
  have "r * z \<le> r * 2 ^ 33" using zb r0 by (simp add: mult_left_mono)
  then have dab: "da \<le> 2 ^ 33 * r" by (simp add: daz mult.commute)
  have wb: "w \<le> 2 ^ 34 * r" using e2 dab \<eta>r r0 w0 by (simp; linarith)
  have t2: "\<bar>da - w\<bar> \<le> r / 2 ^ 18" using e2 wb \<eta>r r0 by (simp; linarith)
  define \<rho> where "\<rho> = r / 2 ^ 19"
  have \<rho>: "r / 2 ^ 18 = 2 * \<rho>" "r / 2 ^ 17 = 4 * \<rho>" "0 < \<rho>"
    using r0 by (simp_all add: \<rho>_def)
  from t1 t2 have "\<bar>w - A\<bar> \<le> r / 2 ^ 17" unfolding \<rho> \<rho>_def[symmetric] using \<rho>(3) by linarith
  then show ?thesis by (simp add: w_def A_def)
qed

text \<open>Two coordinates that \<open>worldToMap\<close> sends to the same cell index are at most nine
  eighths of the resolution apart.\<close>

lemma same_cell_coordinate:
  assumes r: "1 / 2 ^ 500 \<le> r"
    and a: "origin \<le> a" "fsub a origin = Some da" "fdiv da r = Some qa" "0 \<le> qa"
    and b: "origin \<le> b" "fsub b origin = Some db" "fdiv db r = Some qb" "0 \<le> qb"
    and m: "std_round qa = std_round qb" "std_round qa < 2 ^ 32"
  shows "\<bar>b - a\<bar> \<le> 9 / 8 * r"
proof -
  from r have r0: "0 < r" by (rule less_le_trans[rotated]) simp
  from std_round_bounds[OF a(4)]
  have A: "qa - 1 / 2 < real_of_int (std_round qa)" "real_of_int (std_round qa) \<le> qa + 1 / 2"
    by simp_all
  from std_round_bounds[OF b(4)]
  have B: "qb - 1 / 2 < real_of_int (std_round qb)" "real_of_int (std_round qb) \<le> qb + 1 / 2"
    by simp_all
  have mi: "real_of_int (std_round qa) \<le> 2 ^ 32 - 1"
  proof -
    from m(2) have "std_round qa \<le> 2 ^ 32 - 1" by simp
    then have "real_of_int (std_round qa) \<le> real_of_int (2 ^ 32 - 1)" by (rule of_int_le_iff[THEN iffD2])
    then show ?thesis by simp
  qed
  have qa: "qa \<le> 2 ^ 32 + 1 / 2" using A mi by linarith
  have qb: "qb \<le> 2 ^ 32 + 1 / 2" using B mi[unfolded m(1)] by linarith
  have "\<bar>qb - qa\<bar> \<le> 1" using A[unfolded m(1)] B by linarith
  then have "r * \<bar>qb - qa\<bar> \<le> r * 1" using r0 by (simp add: mult_left_mono)
  moreover have "r * \<bar>qb - qa\<bar> = \<bar>r * qb - r * qa\<bar>"
    using r0 by (simp add: abs_mult right_diff_distrib[symmetric])
  ultimately have c: "\<bar>r * qb - r * qa\<bar> \<le> r" by simp
  define A where "A = r * qa"
  define B where "B = r * qb"
  note ca = cell_anchor[OF r a(1,2,3) qa, folded A_def]
    and cb = cell_anchor[OF r b(1,2,3) qb, folded B_def]
  from c have c': "\<bar>B - A\<bar> \<le> r" by (simp add: A_def B_def)
  define \<rho> where "\<rho> = r / 2 ^ 17"
  have \<rho>: "0 < \<rho>" "\<rho> \<le> r / 16" using r0 by (simp_all add: \<rho>_def)
  from ca cb c' r0 \<rho> show ?thesis unfolding \<rho>_def[symmetric] by linarith
qed

text \<open>Two positions at most nine eighths of the resolution apart in each coordinate: the
  number of interpolated points is defined, and it is 0 or 1.\<close>

lemma number_of_points_close:
  assumes r: "1 / 2 ^ 500 \<le> resolution c" and R: "resolution c \<le> 2 ^ 500"
    and x: "\<bar>point_x (position goal) - point_x (position start)\<bar> \<le> 9 / 8 * resolution c"
    and y: "\<bar>point_y (position goal) - point_y (position start)\<bar> \<le> 9 / 8 * resolution c"
  shows "\<exists>k dx dy. k \<le> 1 \<and> number_of_points c start goal = Some k \<and>
           fsub (point_x (position goal)) (point_x (position start)) = Some dx \<and>
           fsub (point_y (position goal)) (point_y (position start)) = Some dy"
proof -
  define r where "r = resolution c"
  define r2 where "r2 = r * r"
  define \<eta> :: real where "\<eta> = 1 / 2 ^ 1075"
  note r = r[folded r_def] and R = R[folded r_def] and x = x[folded r_def] and y = y[folded r_def]
  from r have r0: "0 < r" by (rule less_le_trans[rotated]) simp
  have "\<eta> \<le> (1 / 2 ^ 500) / 2 ^ 60" by (simp add: \<eta>_def)
  also have "\<dots> \<le> r / 2 ^ 60" using r by (rule divide_right_mono) simp
  finally have \<eta>r: "\<eta> \<le> r / 2 ^ 60" .
  have "(1 / 2 ^ 500) * (1 / 2 ^ 500) \<le> r * r" using r by (intro mult_mono) simp_all
  then have r2lo: "1 / 2 ^ 1000 \<le> r2" by (simp add: r2_def)
  have "\<eta> \<le> (1 / 2 ^ 1000) / 2 ^ 60" by (simp add: \<eta>_def)
  also have "\<dots> \<le> r2 / 2 ^ 60" using r2lo by (rule divide_right_mono) simp
  finally have \<eta>r2: "\<eta> \<le> r2 / 2 ^ 60" .
  have "r * r \<le> 2 ^ 500 * 2 ^ 500" using R r0 by (intro mult_mono) simp_all
  then have r2hi: "r2 \<le> 2 ^ 1000" by (simp add: r2_def)
  have r20: "0 < r2" using r0 by (simp add: r2_def)
  have \<eta>1: "\<eta> \<le> 1 / 2 ^ 60" by (simp add: \<eta>_def)
  have b1: "9 / 8 * r \<le> 2 ^ 1020" using R by (simp; linarith)
  have b2: "25 / 16 * r2 \<le> 2 ^ 1020" using r2hi by (simp; linarith)
  have b3: "13 / 4 * r2 \<le> 2 ^ 1020" using r2hi by (simp; linarith)
  have b4: "15 / 8 * r \<le> 2 ^ 1020" using R by (simp; linarith)
  have b5: "(31 / 16 :: real) \<le> 2 ^ 1020" by simp
  have sq: "\<bar>d * d\<bar> \<le> 25 / 16 * r2" if "\<bar>d\<bar> \<le> 5 / 4 * r" for d
  proof -
    have "\<bar>d\<bar> * \<bar>d\<bar> \<le> (5 / 4 * r) * (5 / 4 * r)" using that by (intro mult_mono) simp_all
    then show ?thesis by (simp add: abs_mult r2_def)
  qed
  from double_of_step[OF x b1, folded \<eta>_def fsub_def] obtain dx where
    dx: "fsub (point_x (position goal)) (point_x (position start)) = Some dx"
    and "\<bar>dx\<bar> \<le> 9 / 8 * r + 9 / 8 * r / 2 ^ 53 + \<eta>" by blast
  then have dxb: "\<bar>dx\<bar> \<le> 5 / 4 * r" using \<eta>r r0 by (simp; linarith)
  from double_of_step[OF y b1, folded \<eta>_def fsub_def] obtain dy where
    dy: "fsub (point_y (position goal)) (point_y (position start)) = Some dy"
    and "\<bar>dy\<bar> \<le> 9 / 8 * r + 9 / 8 * r / 2 ^ 53 + \<eta>" by blast
  then have dyb: "\<bar>dy\<bar> \<le> 5 / 4 * r" using \<eta>r r0 by (simp; linarith)
  from double_of_step[OF sq[OF dxb] b2, folded \<eta>_def fmul_def] obtain xx where
    xx: "fmul dx dx = Some xx" and "\<bar>xx\<bar> \<le> 25 / 16 * r2 + 25 / 16 * r2 / 2 ^ 53 + \<eta>"
    and xx0: "0 \<le> xx" by auto
  then have xxb: "xx \<le> 13 / 8 * r2" using \<eta>r2 r20 by (simp; linarith)
  from double_of_step[OF sq[OF dyb] b2, folded \<eta>_def fmul_def] obtain yy where
    yy: "fmul dy dy = Some yy" and "\<bar>yy\<bar> \<le> 25 / 16 * r2 + 25 / 16 * r2 / 2 ^ 53 + \<eta>"
    and yy0: "0 \<le> yy" by auto
  then have yyb: "yy \<le> 13 / 8 * r2" using \<eta>r2 r20 by (simp; linarith)
  have "\<bar>xx + yy\<bar> \<le> 13 / 4 * r2" using xx0 yy0 xxb yyb by linarith
  from double_of_step[OF this b3, folded \<eta>_def fadd_def] xx0 yy0 obtain s where
    s: "fadd xx yy = Some s" and "\<bar>s\<bar> \<le> 13 / 4 * r2 + 13 / 4 * r2 / 2 ^ 53 + \<eta>"
    and s0: "0 \<le> s" by auto
  then have sb: "s \<le> 7 / 2 * r2" using \<eta>r2 r20 by (simp; linarith)
  have "7 / 2 * r2 \<le> (15 / 8 * r)\<^sup>2" using r20 by (simp add: power2_eq_square r2_def)
  with sb have "s \<le> (15 / 8 * r)\<^sup>2" by linarith
  then have "sqrt s \<le> 15 / 8 * r" using r0 by (intro real_le_lsqrt) simp_all
  then have "\<bar>sqrt s\<bar> \<le> 15 / 8 * r" using s0 by simp
  from double_of_step[OF this b4, folded \<eta>_def] s0 obtain p where
    p: "fsqrt s = Some p" and "\<bar>p\<bar> \<le> 15 / 8 * r + 15 / 8 * r / 2 ^ 53 + \<eta>"
    and p0: "0 \<le> p" by (auto simp: fsqrt_def)
  then have pb: "p \<le> 31 / 16 * r" using \<eta>r r0 by (simp; linarith)
  then have "p / r \<le> 31 / 16" using r0 by (simp add: pos_divide_le_eq)
  then have "\<bar>p / r\<bar> \<le> 31 / 16" using p0 r0 by simp
  from double_of_step[OF this b5, folded \<eta>_def] p0 r0 obtain q where
    q: "fdiv p r = Some q" and "\<bar>q\<bar> \<le> 31 / 16 + 31 / 16 / 2 ^ 53 + \<eta>"
    and q0: "0 \<le> q" by (auto simp: fdiv_def)
  then have qb: "q < 2" using \<eta>1 by (simp; linarith)
  then have "\<lfloor>q\<rfloor> < 2" by (simp add: floor_less_iff)
  then have k: "nat \<lfloor>q\<rfloor> \<le> 1" by linarith
  have "q < 2 ^ 64" using qb by simp
  with q0 have c: "static_cast_size_t q = Some (nat \<lfloor>q\<rfloor>)" by (simp add: static_cast_size_t_def)
  have "number_of_points c start goal = Some (nat \<lfloor>q\<rfloor>)"
    by (simp add: number_of_points_def dx dy xx yy s p q[unfolded r_def] c)
  with k dx dy show ?thesis by blast
qed

text \<open>The first interpolated coordinate, when there is one point, is the start.\<close>

lemma interpolate_first:
  assumes d: "fsub g s = Some d" and s: "is_double s"
  shows "interpolate s g (Suc 0) 0 = Some s"
proof -
  from d have "\<bar>d\<bar> \<le> DBL_MAX" unfolding fsub_def by (auto dest: double_of_SomeD)
  then have "fdiv d 1 = Some (rd d)" by (simp add: fdiv_def double_of_finite)
  moreover have "fmul 0 (rd d) = Some 0" by (simp add: fmul_def double_of_zero)
  moreover have "fadd s 0 = Some s" using s by (rule is_double_add_zero)
  ultimately show ?thesis
    by (simp add: interpolate_def d double_of_size_t_def rd_one rd_zero)
qed

text \<open>Start and goal in one cell: the plan is the goal alone or the start position followed
  by the goal, as the number of interpolated points is 0 or 1.\<close>

lemma same_cell_plan:
  assumes r: "1 / 2 ^ 500 \<le> resolution c" and R: "resolution c \<le> 2 ^ 500"
    and s: "worldToMap c (point_x (position start)) (point_y (position start)) = Inr cell"
    and g: "worldToMap c (point_x (position goal)) (point_y (position goal)) = Inr cell"
    and ds: "is_double (point_x (position start))" "is_double (point_y (position start))"
  shows "\<exists>k\<le>1. number_of_points c start goal = Some k \<and>
           makePlan c setCostmap calcNavFn n start goal tolerance =
             Inr (True,
                  (if k = 0 then [goal]
                   else [waypoint (point_x (position start)) (point_y (position start)), goal]),
                  calcNavFn (setCostmap n) cell cell)"
proof -
  from r have r0: "0 < resolution c" by (rule less_le_trans[rotated]) simp
  obtain mx my where cell: "cell = (mx, my)" by (cases cell)
  from worldToMap_Inr[OF r0 s[unfolded cell]] obtain sdx sqx sdy sqy where
    S: "origin_x c \<le> point_x (position start)" "origin_y c \<le> point_y (position start)"
      "fsub (point_x (position start)) (origin_x c) = Some sdx"
      "fdiv sdx (resolution c) = Some sqx"
      "fsub (point_y (position start)) (origin_y c) = Some sdy"
      "fdiv sdy (resolution c) = Some sqy"
      "0 \<le> sqx" "0 \<le> sqy" "uint mx = std_round sqx" "uint my = std_round sqy"
    by blast
  from worldToMap_Inr[OF r0 g[unfolded cell]] obtain gdx gqx gdy gqy where
    G: "origin_x c \<le> point_x (position goal)" "origin_y c \<le> point_y (position goal)"
      "fsub (point_x (position goal)) (origin_x c) = Some gdx"
      "fdiv gdx (resolution c) = Some gqx"
      "fsub (point_y (position goal)) (origin_y c) = Some gdy"
      "fdiv gdy (resolution c) = Some gqy"
      "0 \<le> gqx" "0 \<le> gqy" "uint mx = std_round gqx" "uint my = std_round gqy"
    by blast
  have ux: "uint mx < 2 ^ 32" and uy: "uint my < 2 ^ 32"
    using uint_lt2p[of mx] uint_lt2p[of my] by simp_all
  have x: "\<bar>point_x (position goal) - point_x (position start)\<bar> \<le> 9 / 8 * resolution c"
    using S(9) G(9) ux
    by (intro same_cell_coordinate[OF r S(1) S(3) S(4) S(7) G(1) G(3) G(4) G(7)]) simp_all
  have y: "\<bar>point_y (position goal) - point_y (position start)\<bar> \<le> 9 / 8 * resolution c"
    using S(10) G(10) uy
    by (intro same_cell_coordinate[OF r S(2) S(5) S(6) S(8) G(2) G(5) G(6) G(8)]) simp_all
  from number_of_points_close[OF r R x y] obtain k dx dy where
    k: "k \<le> 1" "number_of_points c start goal = Some k"
    and dx: "fsub (point_x (position goal)) (point_x (position start)) = Some dx"
    and dy: "fsub (point_y (position goal)) (point_y (position start)) = Some dy"
    by blast
  have "makePlan c setCostmap calcNavFn n start goal tolerance =
          Inr (True,
               (if k = 0 then [goal]
                else [waypoint (point_x (position start)) (point_y (position start)), goal]),
               calcNavFn (setCostmap n) cell cell)"
  proof (cases "k = 0")
    case True
    then show ?thesis by (simp add: makePlan_def s g k(2) Let_def)
  next
    case False
    with k(1) have k1: "k = 1" by simp
    show ?thesis
      by (simp add: makePlan_def s g k(2) k1 Let_def
            interpolate_first[OF dx ds(1)] interpolate_first[OF dy ds(2)])
  qed
  with k show ?thesis by blast
qed

text \<open>
  Claim C8, as the code has it. On a grid whose resolution lies between \<open>2\<^sup>-\<^sup>5\<^sup>0\<^sup>0\<close> and
  \<open>2\<^sup>5\<^sup>0\<^sup>0\<close>, for a start whose coordinates are doubles and a goal that \<open>worldToMap\<close> sends
  to the same cell, the number of points that the program computes, the truncated
  quotient of the rounded distance by the resolution, is 0 or 1, and \<open>makePlan\<close>
  succeeds, whatever the tolerance and the planner, with a plan that ends at the goal
  pose: the goal alone when that number is 0, the start position followed by the goal
  when it is 1.
\<close>

theorem makePlan_same_cell:
  assumes "1 / 2 ^ 500 \<le> resolution c" and "resolution c \<le> 2 ^ 500"
    and "worldToMap c (point_x (position start)) (point_y (position start)) = Inr cell"
    and "worldToMap c (point_x (position goal)) (point_y (position goal)) = Inr cell"
    and "is_double (point_x (position start))" and "is_double (point_y (position start))"
  shows "\<exists>k\<le>1. number_of_points c start goal = Some k \<and>
           makePlan c setCostmap calcNavFn n start goal tolerance =
             Inr (True,
                  (if k = 0 then [goal]
                   else [waypoint (point_x (position start)) (point_y (position start)), goal]),
                  calcNavFn (setCostmap n) cell cell)"
  using assms by (rule same_cell_plan)

lemma grid5_resolution: "1 / 2 ^ 500 \<le> resolution grid5" "resolution grid5 \<le> 2 ^ 500"
  by (simp_all add: grid5_def)

text \<open>Start and goal both at \<open>(1, 1)\<close>.\<close>

theorem makePlan_same_cell_witness:
  "1 / 2 ^ 500 \<le> resolution grid5 \<and> resolution grid5 \<le> 2 ^ 500 \<and>
   worldToMap grid5 (point_x (position (waypoint 1 1))) (point_y (position (waypoint 1 1))) =
     Inr (1, 1) \<and>
   is_double (point_x (position (waypoint 1 1))) \<and>
   is_double (point_y (position (waypoint 1 1))) \<and>
   number_of_points grid5 (waypoint 1 1) (waypoint 1 1) = Some 0 \<and>
   makePlan grid5 (\<lambda>n. n) (\<lambda>n src dst. field_start_only) field_start_only
     (waypoint 1 1) (waypoint 1 1) 0 = Inr (True, [waypoint 1 1], field_start_only)"
proof -
  have w: "worldToMap grid5 (point_x (position (waypoint 1 1)))
             (point_y (position (waypoint 1 1))) = Inr (1, 1)"
    by (simp add: worldToMap_def small_cells waypoint_def grid5_def)
  have d: "is_double (point_x (position (waypoint 1 1)))"
    "is_double (point_y (position (waypoint 1 1)))"
    by (simp_all add: waypoint_position is_double_def) (simp_all add: float_eval)
  have z: "fmul 0 0 = Some 0" "fadd 0 0 = Some 0" "fsqrt 0 = Some 0" "fdiv 0 1 = Some 0"
    by (simp_all add: fmul_def fadd_def fsqrt_def fdiv_def double_of_zero)
  have k: "number_of_points grid5 (waypoint 1 1) (waypoint 1 1) = Some 0"
    by (simp add: number_of_points_def waypoint_position small_doubles z grid5_def
          static_cast_size_t_def)
  from makePlan_same_cell [where setCostmap = "\<lambda>n. n"
      and calcNavFn = "\<lambda>n src dst. field_start_only" and n = field_start_only
      and tolerance = 0, OF grid5_resolution w w d] k
  have "makePlan grid5 (\<lambda>n. n) (\<lambda>n src dst. field_start_only) field_start_only
     (waypoint 1 1) (waypoint 1 1) 0 = Inr (True, [waypoint 1 1], field_start_only)"
    by auto
  with grid5_resolution w d k show ?thesis by simp
qed

text \<open>Start \<open>(0.5, 0.5)\<close> and goal \<open>(1.25, 1.25)\<close> both round to the cell \<open>(1, 1)\<close>; the
  computed distance is the double next to 1.0607, one point is interpolated, and the plan
  has two waypoints.\<close>

theorem makePlan_same_cell_two_waypoints:
  "worldToMap grid5 (point_x (position (waypoint (1 / 2) (1 / 2))))
     (point_y (position (waypoint (1 / 2) (1 / 2)))) = Inr (1, 1) \<and>
   worldToMap grid5 (point_x (position (waypoint (5 / 4) (5 / 4))))
     (point_y (position (waypoint (5 / 4) (5 / 4)))) = Inr (1, 1) \<and>
   number_of_points grid5 (waypoint (1 / 2) (1 / 2)) (waypoint (5 / 4) (5 / 4)) = Some 1 \<and>
   makePlan grid5 (\<lambda>n. n) (\<lambda>n src dst. field_start_only) field_start_only
     (waypoint (1 / 2) (1 / 2)) (waypoint (5 / 4) (5 / 4)) 0 =
   Inr (True, [waypoint (1 / 2) (1 / 2), waypoint (5 / 4) (5 / 4)], field_start_only) \<and>
   length [waypoint (1 / 2) (1 / 2), waypoint (5 / 4) (5 / 4)] = 2"
proof -
  let ?s = "waypoint (1 / 2) (1 / 2)"
  let ?g = "waypoint (5 / 4) (5 / 4)"
  have c: "cell_of (1 / 2) 0 1 = Some 1" "cell_of (5 / 4) 0 1 = Some 1"
    by (simp_all add: cell_of_def std_round_def static_cast_int_def float_eval)
  have s: "worldToMap grid5 (point_x (position ?s)) (point_y (position ?s)) = Inr (1, 1)"
    by (simp add: worldToMap_def c waypoint_position grid5_def)
  have g: "worldToMap grid5 (point_x (position ?g)) (point_y (position ?g)) = Inr (1, 1)"
    by (simp add: worldToMap_def c waypoint_position grid5_def)
  have d: "is_double (point_x (position ?s))" "is_double (point_y (position ?s))"
    by (simp_all add: waypoint_position is_double_def) (simp_all add: float_eval)
  have f: "fsub (5 / 4) (1 / 2) = Some (3 / 4)" "fmul (3 / 4) (3 / 4) = Some (9 / 16)"
    "fadd (9 / 16) (9 / 16) = Some (9 / 8)"
    by (simp_all add: float_eval)
  from same_cell_plan [where setCostmap = "\<lambda>n. n"
      and calcNavFn = "\<lambda>n src dst. field_start_only" and n = field_start_only
      and tolerance = 0, OF grid5_resolution s g d]
  obtain k where k: "k \<le> 1" "number_of_points grid5 ?s ?g = Some k"
    and m: "makePlan grid5 (\<lambda>n. n) (\<lambda>n src dst. field_start_only) field_start_only ?s ?g 0 =
      Inr (True, (if k = 0 then [?g]
                  else [waypoint (point_x (position ?s)) (point_y (position ?s)), ?g]),
           field_start_only)"
    by blast
  from k(2) obtain p q where p: "fsqrt (9 / 8) = Some p" and q: "fdiv p 1 = Some q"
    and c: "static_cast_size_t q = Some k"
    by (auto simp: number_of_points_def waypoint_position f grid5_def split: option.splits)
  define \<eta> :: real where "\<eta> = 1 / 2 ^ 1075"
  have \<eta>: "0 \<le> \<eta>" "\<eta> \<le> 1 / 2 ^ 60" by (simp_all add: \<eta>_def)
  have "(33 / 32)\<^sup>2 \<le> (9 / 8 :: real)" by (simp add: power2_eq_square)
  then have lo: "33 / 32 \<le> sqrt (9 / 8)" by (rule real_le_rsqrt)
  have "(9 / 8 :: real) \<le> 2\<^sup>2" by simp
  then have hi: "sqrt (9 / 8) \<le> 2" by (intro real_le_lsqrt) simp_all
  from p have "\<bar>p - sqrt (9 / 8)\<bar> \<le> \<bar>sqrt (9 / 8)\<bar> / 2 ^ 53 + \<eta>"
    unfolding \<eta>_def by (auto simp: fsqrt_def dest: double_of_error)
  with lo hi \<eta> have pl: "65 / 64 \<le> p" "p \<le> 3" by (simp; linarith)+
  from fdiv_error[OF q] have "\<bar>q - p\<bar> \<le> \<bar>p\<bar> / 2 ^ 53 + \<eta>" by (simp add: \<eta>_def)
  with pl \<eta> have "1 \<le> q" by (simp; linarith)
  then have "1 \<le> \<lfloor>q\<rfloor>" by (simp add: le_floor_iff)
  moreover from c have "k = nat \<lfloor>q\<rfloor>" by (auto simp: static_cast_size_t_def split: if_splits)
  ultimately have "1 \<le> k" by linarith
  with k(1) have k1: "k = 1" by simp
  from m k(2) s g show ?thesis unfolding k1 by (simp add: waypoint_position)
qed

text \<open>Start \<open>(0.5, 0.5)\<close> and goal \<open>(0.78, 1.46)\<close> as doubles, resolution 1: the two
  squares add up to exactly 1 in doubles, and one point is interpolated.\<close>

lemma number_of_points_rounds_to_one:
  "number_of_points grid5 (waypoint (1 / 2) (1 / 2)) (waypoint (rd (39 / 50)) (rd (73 / 50))) =
     Some 1"
proof -
  have g: "rd (39 / 50) = 3512807709348987 / 4503599627370496"
    "rd (73 / 50) = 1643813863990231 / 1125899906842624"
    by (simp_all add: float_eval)
  have d: "fsub (3512807709348987 / 4503599627370496) (1 / 2) =
             Some (1261007895663739 / 4503599627370496)"
    "fsub (1643813863990231 / 1125899906842624) (1 / 2) =
             Some (1080863910568919 / 1125899906842624)"
    by (simp_all add: float_eval)
  have m: "fmul (1261007895663739 / 4503599627370496) (1261007895663739 / 4503599627370496) =
             Some (5649315372573551 / 72057594037927936)"
    "fmul (1080863910568919 / 1125899906842624) (1080863910568919 / 1125899906842624) =
             Some (4150517416584649 / 4503599627370496)"
    by (simp_all add: float_eval)
  have s: "fadd (5649315372573551 / 72057594037927936) (4150517416584649 / 4503599627370496) =
             Some 1"
    by (simp add: float_eval)
  have q: "fsqrt 1 = Some 1" "fdiv 1 1 = Some 1"
    by (simp_all add: fsqrt_def) (simp_all add: float_eval)
  show ?thesis
    unfolding g
    by (simp add: number_of_points_def waypoint_position d m s q grid5_def
          static_cast_size_t_def)
qed

end
